theory Spec2Isabelle
  imports Complex_Main
begin

section \<open>Data model of the fleet simulation\<close>

text \<open>
  The engine lives in \<^verbatim>\<open>src/hooks/useTruckSimulation.ts\<close>. JavaScript numbers are
  modelled as \<^typ>\<open>real\<close>: the liter quantities of the fleet are whole numbers, and
  5%, 10%, 95% and 98% of the 5000 L capacity are whole too, so that double arithmetic
  is exact on them; \<^verbatim>\<open>Date\<close> values as milliseconds of type \<^typ>\<open>int\<close>, optional fields
  as \<^typ>\<open>'a option\<close>. The optional arrays \<^verbatim>\<open>logs\<close> and \<^verbatim>\<open>deliveryLog\<close> are only
  ever read through \<^verbatim>\<open>(x || [])\<close>, so an absent array is the empty list. Texts built
  by template literals are kept as constructors that hold the values the template
  interpolates.
\<close>

datatype truckStatus = Idle | Assigned | Delivering | Uplifting | Completed

datatype alertType = Theft | Tampering | Offline | Tilt | Valve | Loss | RouteDeviation

datatype severity = Low | Medium | High | Critical

datatype message =
    FuelLossDetected real real string
  | TripResult real real real real
  | DeliveryCompleted nat
  | AssignedTo "(string \<times> real option) list" "string option"
  | RefilledTo string int
  | UpliftCompleted
  | CompartmentLoss string int real string
  | Delivered string int "int option"
  | SuddenDrop string int
  | ValveFault string
  | ValveTamperingLog
  | ExcessiveTilt string
  | ExcessiveTiltLog real
  | TelematicsOffline string
  | TelematicsOfflineLog
  | PossibleTheft string
  | ValveTamperingOn string
  | UnusualTilt string
  | UnauthorizedValve string
  | FuelLossOn string
  | AlertFrom string

record latLng =
  lat :: real
  lng :: real

record place = latLng +
  name :: string

record trailPoint = latLng +
  tp_timestamp :: int

record logEntry =
  l_id :: string
  l_ts :: int
  l_msg :: message

record compartment =
  c_id :: string
  c_capacity :: real
  c_currentLevel :: real
  c_fuelType :: string
  c_isOffloading :: bool
  c_targetDelivery :: "real option"
  c_deliveredLiters :: "real option"
  c_deliveryLog :: "logEntry list"

record telemetry =
  speed :: real
  fuelFlow :: real
  tilt :: real
  valveStatus :: bool
  online :: bool
  lastUpdate :: int
  heading :: real

record assignment =
  assignedLiters :: real
  startedAt :: int
  perCompTargets :: "string \<rightharpoonup> real"
  provisionalLossLiters :: real

record tripSummary =
  ts_assignedLiters :: real
  ts_deliveredLiters :: real
  ts_lossLiters :: real
  ts_lossPercent :: real
  ts_completedAt :: int

record alert =
  a_id :: string
  a_type :: alertType
  a_severity :: severity
  a_message :: message
  a_timestamp :: int
  a_truckId :: string
  a_acknowledged :: bool
  a_location :: "latLng option"

record fuelLossEntry =
  h_timestamp :: int
  h_truckId :: string
  h_assignedLiters :: real
  h_deliveredLiters :: real
  h_lossLiters :: real
  h_lossPercent :: real

record consumptionSample =
  fc_timestamp :: int
  fc_truckId :: string
  fc_liters :: real

record truck =
  t_id :: string
  t_name :: string
  t_driver :: string
  t_status :: truckStatus
  t_client :: string
  t_position :: latLng
  t_destination :: "place option"
  t_startPoint :: "latLng option"
  t_compartments :: "compartment list"
  t_telemetry :: telemetry
  t_logs :: "logEntry list"
  t_alerts :: "alert list"
  t_trail :: "trailPoint list"
  t_currentAssignment :: "assignment option"
  t_lastTripSummary :: "tripSummary option"

text \<open>The state held by the hook: the five \<^verbatim>\<open>useState\<close> cells.\<close>

record sim =
  trucks :: "truck list"
  alerts :: "alert list"
  totalSavings :: real
  fuelConsumptionData :: "consumptionSample list"
  fuelLossHistory :: "fuelLossEntry list"

section \<open>JavaScript helpers\<close>

text \<open>\<^verbatim>\<open>x || 0\<close> on an optional number.\<close>

definition orZero :: "real option \<Rightarrow> real" where
  "orZero x = (case x of None \<Rightarrow> 0 | Some v \<Rightarrow> v)"

text \<open>\<^verbatim>\<open>xs.slice(-n)\<close> for a positive literal \<open>n\<close>: the last \<open>n\<close> elements.\<close>

definition lastN :: "nat \<Rightarrow> 'a list \<Rightarrow> 'a list" where
  "lastN n xs = drop (length xs - n) xs"

text \<open>\<^verbatim>\<open>Math.floor\<close> and \<^verbatim>\<open>Math.round\<close> (round half up), with integer results.\<close>

definition jsFloor :: "real \<Rightarrow> int" where
  "jsFloor x = \<lfloor>x\<rfloor>"

definition jsRound :: "real \<Rightarrow> int" where
  "jsRound x = \<lfloor>x + 1 / 2\<rfloor>"

text \<open>
  \<^verbatim>\<open>Math.atan2(y, x)\<close> on finite arguments, after the ECMAScript definition (the
  quadrant-aware arc tangent of \<open>y / x\<close>), without signed zeros.
\<close>

definition atan2 :: "real \<Rightarrow> real \<Rightarrow> real" where
  "atan2 y x =
     (if 0 < x then arctan (y / x)
      else if x < 0 \<and> 0 \<le> y then arctan (y / x) + pi
      else if x < 0 then arctan (y / x) - pi
      else if 0 < y then pi / 2
      else if y < 0 then - (pi / 2)
      else 0)"

text \<open>The remainder operator \<^verbatim>\<open>%\<close> on numbers: the sign follows the dividend.\<close>

definition jsRem :: "real \<Rightarrow> real \<Rightarrow> real" where
  "jsRem x y =
     (let q = x / y in x - y * real_of_int (if 0 \<le> q then \<lfloor>q\<rfloor> else \<lceil>q\<rceil>))"

text \<open>
  \<^verbatim>\<open>xs[Math.floor(r * xs.length)]\<close>: \<open>None\<close> is the \<^verbatim>\<open>undefined\<close> of an index out of
  range, which a draw \<open>0 \<le> r < 1\<close> never produces on a non-empty array.
\<close>

definition pick :: "'a list \<Rightarrow> real \<Rightarrow> 'a option" where
  "pick xs r =
     (let i = jsFloor (r * real (length xs))
      in if 0 \<le> i \<and> nat i < length xs then Some (xs ! nat i) else None)"

section \<open>Commands\<close>

text \<open>
  \<^verbatim>\<open>acknowledgeAlert\<close> and \<^verbatim>\<open>assignTrip\<close> are state updaters: \<^verbatim>\<open>setAlerts(prev => ...)\<close>
  and \<^verbatim>\<open>setTrucks(prev => ...)\<close>. The functions below are the updaters; \<open>step\<close> applies
  them to the hook's state.
\<close>

definition acknowledgeAlert :: "string \<Rightarrow> alert list \<Rightarrow> alert list" where
  "acknowledgeAlert alertId prev =
     map (\<lambda>al. if a_id al = alertId then al\<lparr>a_acknowledged := True\<rparr> else al) prev"

definition assignTrip :: "string \<Rightarrow> place \<Rightarrow> truck list \<Rightarrow> truck list" where
  "assignTrip truckId destination prev =
     map (\<lambda>tr. if t_id tr = truckId
                then tr\<lparr>t_status := Assigned,
                        t_destination := Some destination,
                        t_startPoint := Some (t_position tr)\<rparr>
                else tr) prev"

section \<open>Randomness, clock and queued state updates\<close>

text \<open>
  Every \<^verbatim>\<open>Math.random()\<close> call of the per-truck tick is an input: one field per call
  site, a function of the compartment index where the call sits in a callback of
  \<^verbatim>\<open>compartments.map\<close>. \<^verbatim>\<open>Math.random()\<close> returns a number \<open>0 \<le> r < 1\<close>, which
  \<open>validRnd\<close> states. One clock value serves all \<^verbatim>\<open>Date\<close> reads of a tick;
  \<open>nowStr\<close> is its decimal text as interpolated into identifiers.
\<close>

record rnd =
  r_moveLat :: real
  r_moveLng :: real
  r_totalAssigned :: real
  r_assignAmount :: "nat \<Rightarrow> real"
  r_fill :: "nat \<Rightarrow> real"
  r_driftLat :: real
  r_driftLng :: real
  r_speed :: real
  r_fuelFlow :: real
  r_tilt :: real
  r_online :: real
  r_drainRate :: "nat \<Rightarrow> real"
  r_lossChance :: "nat \<Rightarrow> real"
  r_lossPercent :: "nat \<Rightarrow> real"
  r_theft :: real
  r_victim :: real
  r_stolen :: real
  r_valve :: real
  r_tiltEvent :: real
  r_tiltValue :: real
  r_offline :: real
  r_alert :: real
  r_alertType :: real
  r_alertSev1 :: real
  r_alertSev2 :: real
  r_alertIdText :: string

record env =
  now :: int
  nowStr :: string

definition unit01 :: "real \<Rightarrow> bool" where
  "unit01 x = (0 \<le> x \<and> x < 1)"

definition validRnd :: "rnd \<Rightarrow> bool" where
  "validRnd r =
     (unit01 (r_moveLat r) \<and> unit01 (r_moveLng r) \<and> unit01 (r_totalAssigned r) \<and>
      (\<forall>i. unit01 (r_assignAmount r i)) \<and> (\<forall>i. unit01 (r_fill r i)) \<and>
      unit01 (r_driftLat r) \<and> unit01 (r_driftLng r) \<and> unit01 (r_speed r) \<and>
      unit01 (r_fuelFlow r) \<and> unit01 (r_tilt r) \<and> unit01 (r_online r) \<and>
      (\<forall>i. unit01 (r_drainRate r i)) \<and> (\<forall>i. unit01 (r_lossChance r i)) \<and>
      (\<forall>i. unit01 (r_lossPercent r i)) \<and>
      unit01 (r_theft r) \<and> unit01 (r_victim r) \<and> unit01 (r_stolen r) \<and>
      unit01 (r_valve r) \<and> unit01 (r_tiltEvent r) \<and> unit01 (r_tiltValue r) \<and>
      unit01 (r_offline r) \<and> unit01 (r_alert r) \<and> unit01 (r_alertType r) \<and>
      unit01 (r_alertSev1 r) \<and> unit01 (r_alertSev2 r))"

text \<open>
  Inside the \<^verbatim>\<open>setTrucks\<close> updater the other state cells are changed by queued
  updaters, applied in the order of the calls. Every \<^verbatim>\<open>setAlerts\<close> call of the tick
  has the form \<^verbatim>\<open>prev => [x, ...prev.slice(0, 49)]\<close>, the \<^verbatim>\<open>setFuelLossHistory\<close> call is
  \<^verbatim>\<open>prev => [...prev.slice(-499), x]\<close> and the \<^verbatim>\<open>setFuelConsumptionData\<close> call is
  \<^verbatim>\<open>prev => [...prev.slice(-1000), x]\<close>.
\<close>

datatype update =
    SetAlerts alert
  | SetFuelLossHistory fuelLossEntry
  | SetFuelConsumptionData consumptionSample

fun applyUpdate :: "update \<Rightarrow> sim \<Rightarrow> sim" where
  "applyUpdate (SetAlerts x) s = s\<lparr>alerts := x # take 49 (alerts s)\<rparr>"
| "applyUpdate (SetFuelLossHistory x) s =
     s\<lparr>fuelLossHistory := lastN 499 (fuelLossHistory s) @ [x]\<rparr>"
| "applyUpdate (SetFuelConsumptionData x) s =
     s\<lparr>fuelConsumptionData := lastN 1000 (fuelConsumptionData s) @ [x]\<rparr>"

text \<open>\<^verbatim>\<open>[...(logs || []).slice(-40), entry]\<close>\<close>

definition addLog :: "logEntry list \<Rightarrow> logEntry \<Rightarrow> logEntry list" where
  "addLog logs entry = lastN 40 logs @ [entry]"

text \<open>
  \<^verbatim>\<open>xs.map(callback)\<close> where the callback also assigns to variables of the enclosing
  scope: the captured variables are the state \<open>s\<close>, threaded from left to right.
\<close>

fun mapAccum :: "(nat \<Rightarrow> 'a \<Rightarrow> 's \<Rightarrow> 'b \<times> 's) \<Rightarrow> nat \<Rightarrow> 'a list \<Rightarrow> 's \<Rightarrow> 'b list \<times> 's" where
  "mapAccum f i [] s = ([], s)"
| "mapAccum f i (x # xs) s =
     (let (y, s1) = f i x s;
          (ys, s2) = mapAccum f (Suc i) xs s1
      in (y # ys, s2))"

section \<open>The per-truck tick\<close>

subsection \<open>Delivering with a destination: move, detect arrival\<close>

definition arrive :: "env \<Rightarrow> truck \<Rightarrow> truck \<times> update list \<Rightarrow> truck \<times> update list" where
  "arrive e truck = (\<lambda>(nt0, ups).
     let nt = nt0\<lparr>t_status := Completed\<rparr>
     in case t_currentAssignment nt of
          Some ca \<Rightarrow>
            (let assignedL = assignedLiters ca;
                 deliveredL = foldl (\<lambda>sum cmp. sum + orZero (c_deliveredLiters cmp)) 0
                                (t_compartments nt);
                 lossL = provisionalLossLiters ca;
                 lossPercent = (if assignedL > 0 then (lossL / assignedL) * 100 else 0);
                 nt1 = nt\<lparr>t_lastTripSummary := Some
                          \<lparr>ts_assignedLiters = assignedL, ts_deliveredLiters = deliveredL,
                           ts_lossLiters = lossL, ts_lossPercent = lossPercent,
                           ts_completedAt = now e\<rparr>\<rparr>;
                 ups1 = ups @ [SetFuelLossHistory
                          \<lparr>h_timestamp = now e, h_truckId = t_id truck,
                           h_assignedLiters = assignedL, h_deliveredLiters = deliveredL,
                           h_lossLiters = lossL, h_lossPercent = lossPercent\<rparr>];
                 ups2 = (if lossPercent > 2.5
                         then ups1 @ [SetAlerts
                           \<lparr>a_id = ''alert-'' @ nowStr e @ ''-loss'', a_type = Loss,
                            a_severity = (if lossPercent > 5 then High else Medium),
                            a_message = FuelLossDetected lossL lossPercent (t_name truck),
                            a_timestamp = now e, a_truckId = t_id truck,
                            a_acknowledged = False, a_location = Some (t_position nt1)\<rparr>]
                         else ups1);
                 nt2 = nt1\<lparr>t_logs := addLog (t_logs truck)
                          \<lparr>l_id = ''log-'' @ nowStr e, l_ts = now e,
                           l_msg = TripResult assignedL deliveredL lossL lossPercent\<rparr>\<rparr>
             in (nt2, ups2))
        | None \<Rightarrow>
            (let completedComps = length (filter c_isOffloading (t_compartments nt))
             in (nt\<lparr>t_logs := addLog (t_logs nt)
                      \<lparr>l_id = ''log-'' @ nowStr e, l_ts = now e,
                       l_msg = DeliveryCompleted completedComps\<rparr>\<rparr>, ups)))"

definition moveToDestination ::
  "env \<Rightarrow> rnd \<Rightarrow> truck \<Rightarrow> place \<Rightarrow> truck \<times> update list \<Rightarrow> truck \<times> update list" where
  "moveToDestination e r truck dest = (\<lambda>(nt, ups).
     let deltaLat = (lat dest - lat (t_position truck)) * 0.01;
         deltaLng = (lng dest - lng (t_position truck)) * 0.01;
         nt1 = nt\<lparr>t_position :=
                  \<lparr>lat = lat (t_position truck) + deltaLat + (r_moveLat r - 0.5) * 0.001,
                   lng = lng (t_position truck) + deltaLng + (r_moveLng r - 0.5) * 0.001\<rparr>\<rparr>;
         distance = sqrt ((lat (t_position nt1) - lat dest)\<^sup>2 +
                          (lng (t_position nt1) - lng dest)\<^sup>2)
     in if distance < 0.005 then arrive e truck (nt1, ups) else (nt1, ups))"

subsection \<open>Assigned: start the delivery\<close>

text \<open>
  The callback of \<^verbatim>\<open>truck.compartments.map\<close> in the \<^verbatim>\<open>assigned\<close> branch; its captured
  variables are \<^verbatim>\<open>remainingToAssign\<close> and \<^verbatim>\<open>perCompTargets\<close>. The callbacks' parameter
  \<^verbatim>\<open>comp\<close> is written \<open>cmp\<close> throughout, \<open>comp\<close> being function composition in HOL.
\<close>

type_synonym targetState = "real \<times> (string \<Rightarrow> real option)"

definition assignTarget ::
  "rnd \<Rightarrow> nat \<Rightarrow> compartment \<Rightarrow> targetState \<Rightarrow> compartment \<times> targetState" where
  "assignTarget r idx cmp = (\<lambda>(remainingToAssign, targets).
     if remainingToAssign > 0 \<and> c_currentLevel cmp > c_capacity cmp * 0.1 then
       (let maxFromThisComp = min remainingToAssign (c_currentLevel cmp - c_capacity cmp * 0.05);
            assignedAmount = min maxFromThisComp
                               (real_of_int (jsFloor (r_assignAmount r idx * 1500) + 500))
        in (cmp\<lparr>c_targetDelivery := Some assignedAmount,
                 c_deliveredLiters := Some 0,
                 c_isOffloading := (assignedAmount > 0),
                 c_deliveryLog := []\<rparr>,
            (remainingToAssign - assignedAmount, targets(c_id cmp \<mapsto> assignedAmount))))
     else
       (cmp\<lparr>c_targetDelivery := Some 0, c_deliveredLiters := Some 0, c_isOffloading := False\<rparr>,
        (remainingToAssign, targets(c_id cmp \<mapsto> 0))))"

definition startDelivery ::
  "env \<Rightarrow> rnd \<Rightarrow> truck \<Rightarrow> truck \<times> update list \<Rightarrow> truck \<times> update list" where
  "startDelivery e r truck = (\<lambda>(nt, ups).
     let nt1 = nt\<lparr>t_status := Delivering\<rparr>;
         totalAssigned = real_of_int (jsFloor (r_totalAssigned r * 2500) + 2500);
         (comps, remainingToAssign, targets) =
            mapAccum (assignTarget r) 0 (t_compartments truck) (totalAssigned, Map.empty);
         nt2 = nt1\<lparr>t_compartments := comps\<rparr>;
         nt3 = nt2\<lparr>t_currentAssignment := Some
                  \<lparr>assignedLiters = totalAssigned, startedAt = now e,
                   perCompTargets = targets, provisionalLossLiters = 0\<rparr>\<rparr>;
         assignedComps = filter c_isOffloading (t_compartments nt3);
         assignmentSummary = map (\<lambda>c. (c_id c, c_targetDelivery c)) assignedComps
     in (nt3\<lparr>t_logs := addLog (t_logs truck)
              \<lparr>l_id = ''log-'' @ nowStr e, l_ts = now e,
               l_msg = AssignedTo assignmentSummary (map_option name (t_destination truck))\<rparr>\<rparr>,
         ups))"

subsection \<open>Uplifting: refill\<close>

text \<open>
  The callback of the refill map; its captured variable is \<^verbatim>\<open>newTruck.logs\<close>
  (\<^verbatim>\<open>anyRefilled\<close> is written and never read).
\<close>

definition refillComp ::
  "env \<Rightarrow> rnd \<Rightarrow> nat \<Rightarrow> compartment \<Rightarrow> logEntry list \<Rightarrow> compartment \<times> logEntry list" where
  "refillComp e r idx cmp logs =
     (if c_currentLevel cmp < c_capacity cmp * 0.98 then
        (let fillAmount = real_of_int (jsFloor (r_fill r idx * 40) + 40);
             newLevel = min (c_capacity cmp) (c_currentLevel cmp + fillAmount);
             actualFilled = newLevel - c_currentLevel cmp;
             logs1 = (if actualFilled > 0 \<and>
                         jsFloor (newLevel / 100) > jsFloor (c_currentLevel cmp / 100)
                      then addLog logs
                             \<lparr>l_id = ''log-'' @ nowStr e @ ''-'' @ c_id cmp, l_ts = now e,
                              l_msg = RefilledTo (c_id cmp) (jsRound newLevel)\<rparr>
                      else logs)
         in (cmp\<lparr>c_currentLevel := newLevel, c_deliveredLiters := Some 0\<rparr>, logs1))
      else (cmp\<lparr>c_deliveredLiters := Some 0\<rparr>, logs))"

definition refill ::
  "env \<Rightarrow> rnd \<Rightarrow> truck \<Rightarrow> truck \<times> update list \<Rightarrow> truck \<times> update list" where
  "refill e r truck = (\<lambda>(nt, ups).
     let (comps, logs) = mapAccum (refillComp e r) 0 (t_compartments truck) (t_logs nt);
         nt1 = nt\<lparr>t_logs := logs, t_compartments := comps\<rparr>;
         allFull = list_all (\<lambda>cmp. c_currentLevel cmp \<ge> c_capacity cmp * 0.95)
                     (t_compartments nt1)
     in if allFull
        then (nt1\<lparr>t_status := Idle, t_destination := None, t_startPoint := None,
                  t_logs := addLog (t_logs nt1)
                    \<lparr>l_id = ''log-'' @ nowStr e, l_ts = now e, l_msg = UpliftCompleted\<rparr>\<rparr>,
              ups)
        else (nt1, ups))"

subsection \<open>Completed and idle\<close>

definition toUplifting :: "truck \<Rightarrow> truck \<times> update list \<Rightarrow> truck \<times> update list" where
  "toUplifting truck = (\<lambda>(nt, ups).
     (nt\<lparr>t_status := Uplifting,
         t_compartments := map (\<lambda>cmp. cmp\<lparr>c_isOffloading := False, c_targetDelivery := Some 0\<rparr>)
                             (t_compartments truck)\<rparr>,
      ups))"

definition drift :: "rnd \<Rightarrow> truck \<Rightarrow> truck \<times> update list \<Rightarrow> truck \<times> update list" where
  "drift r truck = (\<lambda>(nt, ups).
     (nt\<lparr>t_position :=
          \<lparr>lat = lat (t_position truck) + (r_driftLat r - 0.5) * 0.0001,
           lng = lng (t_position truck) + (r_driftLng r - 0.5) * 0.0001\<rparr>\<rparr>,
      ups))"

text \<open>The chain \<^verbatim>\<open>if ... else if ...\<close> on \<^verbatim>\<open>truck.status\<close> that opens the tick.\<close>

definition stepStatus ::
  "env \<Rightarrow> rnd \<Rightarrow> truck \<Rightarrow> truck \<times> update list \<Rightarrow> truck \<times> update list" where
  "stepStatus e r truck st =
     (case (if t_status truck = Delivering then t_destination truck else None) of
        Some dest \<Rightarrow> moveToDestination e r truck dest st
      | None \<Rightarrow>
          if t_status truck = Assigned then startDelivery e r truck st
          else if t_status truck = Uplifting then refill e r truck st
          else if t_status truck = Completed then toUplifting truck st
          else drift r truck st)"

subsection \<open>Heading and telemetry\<close>

definition refreshTelemetry :: "env \<Rightarrow> rnd \<Rightarrow> truck \<Rightarrow> truck \<Rightarrow> truck" where
  "refreshTelemetry e r truck nt =
     (let n = length (t_trail truck);
          heading1 =
            (if n \<ge> 2 then
               (let recent = t_trail truck ! (n - 1);
                    previous = t_trail truck ! (n - 2);
                    deltaLat = lat recent - lat previous;
                    deltaLng = lng recent - lng previous
                in if deltaLat \<noteq> 0 \<or> deltaLng \<noteq> 0
                   then jsRem (atan2 deltaLng deltaLat * 180 / pi + 360) 360
                   else heading (t_telemetry truck))
             else heading (t_telemetry truck))
      in nt\<lparr>t_telemetry :=
            \<lparr>speed = max 0 (speed (t_telemetry truck) + (r_speed r - 0.5) * 10),
             fuelFlow = (if t_status truck = Delivering then r_fuelFlow r * 50 + 10 else 0),
             tilt = max 0 (tilt (t_telemetry truck) + (r_tilt r - 0.5) * 2),
             valveStatus = (t_status truck = Delivering),
             online = (r_online r > 0.05),
             lastUpdate = now e,
             heading = heading1\<rparr>\<rparr>)"

subsection \<open>Delivering: drain, theft, valve and tilt events\<close>

text \<open>
  The callback of the drain map. Its captured variables are \<^verbatim>\<open>newTruck\<close> (the
  assignment's provisional loss and the logs), the queue of state updates and
  \<^verbatim>\<open>totalDrained\<close>.
\<close>

type_synonym drainState = "truck \<times> update list \<times> real"

definition drainComp ::
  "env \<Rightarrow> rnd \<Rightarrow> truck \<Rightarrow> nat \<Rightarrow> compartment \<Rightarrow> drainState \<Rightarrow> compartment \<times> drainState" where
  "drainComp e r truck idx cmp = (\<lambda>(nt, ups, totalDrained).
     if c_isOffloading cmp \<and> c_currentLevel cmp > 0 \<and>
        orZero (c_deliveredLiters cmp) < orZero (c_targetDelivery cmp) then
       (let drainRate = real_of_int (jsFloor (r_drainRate r idx * 40) + 20);
            remaining = orZero (c_targetDelivery cmp) - orZero (c_deliveredLiters cmp);
            reserve = c_capacity cmp * 0.05;
            maxDrain = min (min drainRate remaining) (c_currentLevel cmp - reserve)
        in if maxDrain > 0 then
             (let newLevel = c_currentLevel cmp - maxDrain;
                  newDelivered = orZero (c_deliveredLiters cmp) + maxDrain;
                  totalDrained1 = totalDrained + maxDrain
              in if newDelivered \<ge> orZero (c_targetDelivery cmp) \<or> newLevel \<le> reserve then
                   (let lossHit = (r_lossChance r idx < 0.3);
                        lossPercent = r_lossPercent r idx * 2 + 0.5;
                        compLossLiters =
                          (if lossHit
                           then jsRound (orZero (c_targetDelivery cmp) * lossPercent / 100)
                           else 0);
                        nt1 = (if lossHit then
                                 (case t_currentAssignment nt of
                                    Some ca \<Rightarrow> nt\<lparr>t_currentAssignment := Some
                                      (ca\<lparr>provisionalLossLiters :=
                                            provisionalLossLiters ca + real_of_int compLossLiters\<rparr>)\<rparr>
                                  | None \<Rightarrow> nt)
                               else nt);
                        ups1 = (if lossHit \<and> (compLossLiters > 10 \<or> lossPercent > 1)
                                then ups @ [SetAlerts
                                  \<lparr>a_id = ''alert-'' @ nowStr e @ ''-comp-loss'', a_type = Loss,
                                   a_severity = (if lossPercent > 2 then Medium else Low),
                                   a_message = CompartmentLoss (c_id cmp) compLossLiters
                                                 lossPercent (t_name truck),
                                   a_timestamp = now e, a_truckId = t_id truck,
                                   a_acknowledged = False,
                                   a_location = Some (t_position nt1)\<rparr>]
                                else ups);
                        msg = Delivered (c_id cmp) (jsRound newDelivered)
                                (if compLossLiters > 0 then Some compLossLiters else None);
                        deliveryLog = lastN 10 (c_deliveryLog cmp) @
                                [\<lparr>l_id = ''del-'' @ nowStr e @ ''-'' @ c_id cmp, l_ts = now e,
                                  l_msg = msg\<rparr>];
                        nt2 = nt1\<lparr>t_logs := addLog (t_logs nt1)
                                \<lparr>l_id = ''log-'' @ nowStr e @ ''-'' @ c_id cmp, l_ts = now e,
                                 l_msg = msg\<rparr>\<rparr>
                    in (cmp\<lparr>c_currentLevel := newLevel,
                             c_deliveredLiters := Some newDelivered,
                             c_isOffloading := False,
                             c_deliveryLog := deliveryLog\<rparr>,
                        (nt2, ups1, totalDrained1)))
                 else
                   (cmp\<lparr>c_currentLevel := newLevel, c_deliveredLiters := Some newDelivered\<rparr>,
                    (nt, ups, totalDrained1)))
           else (cmp, (nt, ups, totalDrained)))
     else (cmp, (nt, ups, totalDrained)))"

definition theftEvent ::
  "env \<Rightarrow> rnd \<Rightarrow> truck \<Rightarrow> truck \<times> update list \<Rightarrow> truck \<times> update list" where
  "theftEvent e r truck = (\<lambda>(nt, ups).
     if r_theft r < 0.005 then
       (let activeComps = filter c_isOffloading (t_compartments nt)
        in if length activeComps > 0 then
             (case pick activeComps (r_victim r) of
                Some victimComp \<Rightarrow>
                  (let stolenAmount = jsFloor (r_stolen r * 100) + 50;
                       nt1 = nt\<lparr>t_compartments :=
                               map (\<lambda>cmp. if c_id cmp = c_id victimComp
                                           then cmp\<lparr>c_currentLevel :=
                                                  max 0 (c_currentLevel cmp - real_of_int stolenAmount)\<rparr>
                                           else cmp)
                                 (t_compartments nt)\<rparr>;
                       newAlert =
                         \<lparr>a_id = ''alert-'' @ nowStr e @ ''-theft'', a_type = Theft,
                          a_severity = High,
                          a_message = SuddenDrop (c_id victimComp) stolenAmount,
                          a_timestamp = now e, a_truckId = t_id truck,
                          a_acknowledged = False, a_location = Some (t_position nt1)\<rparr>
                   in (nt1\<lparr>t_logs := addLog (t_logs nt1)
                            \<lparr>l_id = ''log-'' @ nowStr e @ ''-theft'', l_ts = now e,
                             l_msg = SuddenDrop (c_id victimComp) stolenAmount\<rparr>\<rparr>,
                       ups @ [SetAlerts newAlert]))
              | None \<Rightarrow> (nt, ups))
           else (nt, ups))
     else (nt, ups))"

definition valveEvent ::
  "env \<Rightarrow> rnd \<Rightarrow> truck \<Rightarrow> truck \<times> update list \<Rightarrow> truck \<times> update list" where
  "valveEvent e r truck = (\<lambda>(nt, ups).
     if r_valve r < 0.003 then
       (let nt1 = nt\<lparr>t_telemetry := (t_telemetry nt)\<lparr>valveStatus := False\<rparr>\<rparr>;
            newAlert =
              \<lparr>a_id = ''alert-'' @ nowStr e @ ''-valve'', a_type = Valve, a_severity = Medium,
               a_message = ValveFault (t_name truck),
               a_timestamp = now e, a_truckId = t_id truck,
               a_acknowledged = False, a_location = Some (t_position nt1)\<rparr>
        in (nt1\<lparr>t_logs := addLog (t_logs nt1)
                 \<lparr>l_id = ''log-'' @ nowStr e @ ''-valve'', l_ts = now e,
                  l_msg = ValveTamperingLog\<rparr>\<rparr>,
            ups @ [SetAlerts newAlert]))
     else (nt, ups))"

definition tiltEvent ::
  "env \<Rightarrow> rnd \<Rightarrow> truck \<Rightarrow> truck \<times> update list \<Rightarrow> truck \<times> update list" where
  "tiltEvent e r truck = (\<lambda>(nt, ups).
     if r_tiltEvent r < 0.002 then
       (let nt1 = nt\<lparr>t_telemetry := (t_telemetry nt)\<lparr>tilt := r_tiltValue r * 5 + 10\<rparr>\<rparr>;
            newAlert =
              \<lparr>a_id = ''alert-'' @ nowStr e @ ''-tilt'', a_type = Tilt, a_severity = Medium,
               a_message = ExcessiveTilt (t_name truck),
               a_timestamp = now e, a_truckId = t_id truck,
               a_acknowledged = False, a_location = Some (t_position nt1)\<rparr>
        in (nt1\<lparr>t_logs := addLog (t_logs nt1)
                 \<lparr>l_id = ''log-'' @ nowStr e @ ''-tilt'', l_ts = now e,
                  l_msg = ExcessiveTiltLog (tilt (t_telemetry nt1))\<rparr>\<rparr>,
            ups @ [SetAlerts newAlert]))
     else (nt, ups))"

text \<open>The block guarded by \<^verbatim>\<open>truck.status === 'delivering'\<close> after the telemetry update.\<close>

definition deliver ::
  "env \<Rightarrow> rnd \<Rightarrow> truck \<Rightarrow> truck \<times> update list \<Rightarrow> truck \<times> update list" where
  "deliver e r truck = (\<lambda>(nt, ups).
     let (comps, nt1, ups1, totalDrained) =
            mapAccum (drainComp e r truck) 0 (t_compartments truck) (nt, ups, 0);
         st2 = (nt1\<lparr>t_compartments := comps\<rparr>, ups1);
         st3 = theftEvent e r truck st2;
         st4 = valveEvent e r truck st3;
         (nt5, ups5) = tiltEvent e r truck st4
     in (nt5\<lparr>t_telemetry := (t_telemetry nt5)\<lparr>fuelFlow := totalDrained\<rparr>\<rparr>, ups5))"

subsection \<open>Offline event, trail, ambient alerts, consumption samples\<close>

definition offlineEvent ::
  "env \<Rightarrow> rnd \<Rightarrow> truck \<Rightarrow> truck \<times> update list \<Rightarrow> truck \<times> update list" where
  "offlineEvent e r truck = (\<lambda>(nt, ups).
     if t_status truck = Uplifting \<and> r_offline r < 0.001 then
       (let nt1 = nt\<lparr>t_telemetry := (t_telemetry nt)\<lparr>online := False\<rparr>\<rparr>;
            newAlert =
              \<lparr>a_id = ''alert-'' @ nowStr e @ ''-offline'', a_type = Offline, a_severity = High,
               a_message = TelematicsOffline (t_name truck),
               a_timestamp = now e, a_truckId = t_id truck,
               a_acknowledged = False, a_location = Some (t_position nt1)\<rparr>
        in (nt1\<lparr>t_logs := addLog (t_logs nt1)
                 \<lparr>l_id = ''log-'' @ nowStr e @ ''-offline'', l_ts = now e,
                  l_msg = TelematicsOfflineLog\<rparr>\<rparr>,
            ups @ [SetAlerts newAlert]))
     else (nt, ups))"

definition addToTrail :: "env \<Rightarrow> truck \<Rightarrow> truck \<Rightarrow> truck" where
  "addToTrail e truck nt =
     nt\<lparr>t_trail := lastN 20 (t_trail truck) @
           [\<lparr>lat = lat (t_position nt), lng = lng (t_position nt), tp_timestamp = now e\<rparr>]\<rparr>"

fun getAlertMessage :: "alertType \<Rightarrow> string \<Rightarrow> message" where
  "getAlertMessage Theft truckName = PossibleTheft truckName"
| "getAlertMessage Tampering truckName = ValveTamperingOn truckName"
| "getAlertMessage Tilt truckName = UnusualTilt truckName"
| "getAlertMessage Valve truckName = UnauthorizedValve truckName"
| "getAlertMessage Loss truckName = FuelLossOn truckName"
| "getAlertMessage _ truckName = AlertFrom truckName"

definition randomAlert ::
  "env \<Rightarrow> rnd \<Rightarrow> truck \<Rightarrow> truck \<times> update list \<Rightarrow> truck \<times> update list" where
  "randomAlert e r truck = (\<lambda>(nt, ups).
     if r_alert r < 0.01 then
       (case pick [Theft, Tampering, Tilt, Valve] (r_alertType r) of
          Some alertType \<Rightarrow>
            (nt, ups @ [SetAlerts
               \<lparr>a_id = ''alert-'' @ nowStr e @ ''-'' @ r_alertIdText r, a_type = alertType,
                a_severity = (if r_alertSev1 r > 0.7 then High
                              else if r_alertSev2 r > 0.4 then Medium else Low),
                a_message = getAlertMessage alertType (t_name truck),
                a_timestamp = now e, a_truckId = t_id truck,
                a_acknowledged = False, a_location = Some (t_position nt)\<rparr>])
        | None \<Rightarrow> (nt, ups))
     else (nt, ups))"

definition trackConsumption ::
  "env \<Rightarrow> truck \<Rightarrow> truck \<times> update list \<Rightarrow> truck \<times> update list" where
  "trackConsumption e truck = (\<lambda>(nt, ups).
     if t_status truck = Delivering \<and> fuelFlow (t_telemetry nt) > 0
     then (nt, ups @ [SetFuelConsumptionData
             \<lparr>fc_timestamp = now e, fc_truckId = t_id truck,
              fc_liters = fuelFlow (t_telemetry nt)\<rparr>])
     else (nt, ups))"

subsection \<open>The callback of \<^verbatim>\<open>prevTrucks.map\<close>\<close>

text \<open>
  \<open>tickTruck e r truck\<close> is the new truck together with the state updates it queued,
  in the order of the calls.
\<close>

definition tickTruck :: "env \<Rightarrow> rnd \<Rightarrow> truck \<Rightarrow> truck \<times> update list" where
  "tickTruck e r truck =
     (let (nt1, ups1) = stepStatus e r truck (truck, []);
          nt2 = refreshTelemetry e r truck nt1;
          st3 = (if t_status truck = Delivering then deliver e r truck (nt2, ups1)
                 else (nt2, ups1));
          (nt4, ups4) = offlineEvent e r truck st3;
          nt5 = addToTrail e truck nt4;
          st6 = randomAlert e r truck (nt5, ups4)
      in trackConsumption e truck st6)"

section \<open>The whole tick, and runs of the simulation\<close>

definition tick :: "env \<Rightarrow> (nat \<Rightarrow> rnd) \<Rightarrow> real \<Rightarrow> sim \<Rightarrow> sim" where
  "tick e rs rSavings s =
     (let results = map (\<lambda>(i, truck). tickTruck e (rs i) truck) (enumerate 0 (trucks s));
          s1 = s\<lparr>trucks := map fst results\<rparr>;
          s2 = foldl (\<lambda>st u. applyUpdate u st) s1 (concat (map snd results))
      in s2\<lparr>totalSavings := totalSavings s2 + real_of_int (jsFloor (rSavings * 100))\<rparr>)"

text \<open>
  What can happen to the state: a timer tick (with its clock value and draws) or one of
  the two commands.
\<close>

datatype event =
    Tick env "nat \<Rightarrow> rnd" real
  | AssignTrip string place
  | AcknowledgeAlert string

fun step :: "event \<Rightarrow> sim \<Rightarrow> sim" where
  "step (Tick e rs rSavings) s = tick e rs rSavings s"
| "step (AssignTrip truckId destination) s = s\<lparr>trucks := assignTrip truckId destination (trucks s)\<rparr>"
| "step (AcknowledgeAlert alertId) s = s\<lparr>alerts := acknowledgeAlert alertId (alerts s)\<rparr>"

definition run :: "event list \<Rightarrow> sim \<Rightarrow> sim" where
  "run evs s = foldl (\<lambda>st ev. step ev st) s evs"

fun validEvent :: "event \<Rightarrow> bool" where
  "validEvent (Tick e rs rSavings) = ((\<forall>i. validRnd (rs i)) \<and> unit01 rSavings)"
| "validEvent _ = True"

text \<open>A single truck followed through ticks, each with its clock value and draws.\<close>

definition truckRun :: "(env \<times> rnd) list \<Rightarrow> truck \<Rightarrow> truck" where
  "truckRun steps truck = foldl (\<lambda>t (e, r). fst (tickTruck e r t)) truck steps"

section \<open>The seed fleet and the initial state\<close>

text \<open>
  \<^verbatim>\<open>DEMO_TRUCKS\<close> and the initialising effect, merged: each seed entry with the
  telemetry, logs, alerts and trail the effect adds. The draws of \<^verbatim>\<open>seedAround\<close> and
  of the telemetry are inputs.
\<close>

record seedDraws =
  sd_lat :: real
  sd_lng :: real
  sd_speed :: real
  sd_fuelFlow :: real
  sd_tilt :: real
  sd_online :: real
  sd_heading :: real

definition seedAround :: "seedDraws \<Rightarrow> real \<Rightarrow> real \<Rightarrow> real \<Rightarrow> latLng" where
  "seedAround sd lat0 lng0 jitterKm =
     (let toDegLat = jitterKm / 111;
          toDegLng = jitterKm / (111 * cos (lat0 * pi / 180))
      in \<lparr>lat = lat0 + (sd_lat sd - 0.5) * 2 * toDegLat,
          lng = lng0 + (sd_lng sd - 0.5) * 2 * toDegLng\<rparr>)"

definition AIRPORT_DEPOT :: place where
  "AIRPORT_DEPOT = \<lparr>lat = 23.5932, lng = 58.2845, name = ''Airport Depot''\<rparr>"

definition GHALA_DEPOT :: place where
  "GHALA_DEPOT = \<lparr>lat = 23.5790, lng = 58.3770, name = ''Ghala Depot''\<rparr>"

definition QURUM_SHELL :: place where
  "QURUM_SHELL = \<lparr>lat = 23.6025, lng = 58.4375, name = ''Shell Station Qurum''\<rparr>"

definition AL_KHUWAIR_BP :: place where
  "AL_KHUWAIR_BP = \<lparr>lat = 23.5850, lng = 58.4000, name = ''BP Al Khuwair''\<rparr>"

definition MUTTRAH_TOTAL :: place where
  "MUTTRAH_TOTAL = \<lparr>lat = 23.6160, lng = 58.5650, name = ''TotalEnergies Muttrah''\<rparr>"

definition seedCompartment ::
  "string \<Rightarrow> real \<Rightarrow> real \<Rightarrow> string \<Rightarrow> bool \<Rightarrow> real option \<Rightarrow> compartment" where
  "seedCompartment i cap lvl fuel off target =
     \<lparr>c_id = i, c_capacity = cap, c_currentLevel = lvl, c_fuelType = fuel,
      c_isOffloading = off, c_targetDelivery = target, c_deliveredLiters = None,
      c_deliveryLog = []\<rparr>"

definition seedTruck ::
  "env \<Rightarrow> seedDraws \<Rightarrow> string \<Rightarrow> string \<Rightarrow> string \<Rightarrow> truckStatus \<Rightarrow> string \<Rightarrow> latLng
     \<Rightarrow> place option \<Rightarrow> compartment list \<Rightarrow> truck" where
  "seedTruck e sd i nm drv st cl pos dest comps =
     \<lparr>t_id = i, t_name = nm, t_driver = drv, t_status = st, t_client = cl,
      t_position = pos, t_destination = dest, t_startPoint = None,
      t_compartments = comps,
      t_telemetry =
        \<lparr>speed = sd_speed sd * 60 + 20,
         fuelFlow = (if st = Delivering then sd_fuelFlow sd * 50 + 10 else 0),
         tilt = sd_tilt sd * 5,
         valveStatus = (st = Delivering),
         online = (sd_online sd > 0.1),
         lastUpdate = now e,
         heading = sd_heading sd * 360\<rparr>,
      t_logs = [], t_alerts = [],
      t_trail = [\<lparr>lat = lat pos, lng = lng pos, tp_timestamp = now e\<rparr>],
      t_currentAssignment = None, t_lastTripSummary = None\<rparr>"

definition TK001 :: "env \<Rightarrow> seedDraws \<Rightarrow> truck" where
  "TK001 e sd = seedTruck e sd ''TK001'' ''Fuel Express 01'' ''John Smith'' Idle ''Shell Station''
     (seedAround sd (lat AIRPORT_DEPOT) (lng AIRPORT_DEPOT) 1.5) None
     [seedCompartment ''C1'' 5000 4800 ''Diesel'' False None,
      seedCompartment ''C2'' 5000 4500 ''Petrol'' False None,
      seedCompartment ''C3'' 5000 3200 ''Diesel'' False None,
      seedCompartment ''C4'' 5000 2800 ''Petrol'' False None]"

definition TK002 :: "env \<Rightarrow> seedDraws \<Rightarrow> truck" where
  "TK002 e sd = seedTruck e sd ''TK002'' ''Fuel Express 02'' ''Sarah Johnson'' Delivering ''BP Station''
     (seedAround sd 23.5850 58.3950 1.2) (Some AL_KHUWAIR_BP)
     [seedCompartment ''C1'' 5000 4200 ''Diesel'' True (Some 2000),
      seedCompartment ''C2'' 5000 3800 ''Petrol'' False None,
      seedCompartment ''C3'' 5000 4600 ''Diesel'' False None,
      seedCompartment ''C4'' 5000 3400 ''Petrol'' False None]"

definition TK003 :: "env \<Rightarrow> seedDraws \<Rightarrow> truck" where
  "TK003 e sd = seedTruck e sd ''TK003'' ''Fuel Express 03'' ''Mike Wilson'' Assigned ''Shell Station''
     (seedAround sd (lat GHALA_DEPOT) (lng GHALA_DEPOT) 1.5) (Some QURUM_SHELL)
     [seedCompartment ''C1'' 5000 5000 ''Diesel'' False None,
      seedCompartment ''C2'' 5000 5000 ''Petrol'' False None,
      seedCompartment ''C3'' 5000 4800 ''Diesel'' False None,
      seedCompartment ''C4'' 5000 4900 ''Petrol'' False None]"

definition TK004 :: "env \<Rightarrow> seedDraws \<Rightarrow> truck" where
  "TK004 e sd = seedTruck e sd ''TK004'' ''Fuel Express 04'' ''Lisa Brown'' Completed ''Total Station''
     (seedAround sd (lat MUTTRAH_TOTAL) (lng MUTTRAH_TOTAL) 1.0) None
     [seedCompartment ''C1'' 5000 500 ''Diesel'' False None,
      seedCompartment ''C2'' 5000 300 ''Petrol'' False None,
      seedCompartment ''C3'' 5000 800 ''Diesel'' False None,
      seedCompartment ''C4'' 5000 200 ''Petrol'' False None]"

definition TK005 :: "env \<Rightarrow> seedDraws \<Rightarrow> truck" where
  "TK005 e sd = seedTruck e sd ''TK005'' ''Fuel Express 05'' ''David Garcia'' Uplifting ''Mobil Station''
     (seedAround sd (lat AIRPORT_DEPOT) (lng AIRPORT_DEPOT) 1.0) None
     [seedCompartment ''C1'' 5000 3200 ''Diesel'' False None,
      seedCompartment ''C2'' 5000 2800 ''Petrol'' False None,
      seedCompartment ''C3'' 5000 3600 ''Diesel'' False None,
      seedCompartment ''C4'' 5000 3100 ''Petrol'' False None]"

definition initialSim :: "env \<Rightarrow> (nat \<Rightarrow> seedDraws) \<Rightarrow> sim" where
  "initialSim e sds =
     \<lparr>trucks = [TK001 e (sds 0), TK002 e (sds 1), TK003 e (sds 2), TK004 e (sds 3),
                TK005 e (sds 4)],
      alerts = [], totalSavings = 847562, fuelConsumptionData = [], fuelLossHistory = []\<rparr>"

subsection \<open>Concrete inputs\<close>

definition env0 :: env where
  "env0 = \<lparr>now = 1700000000000, nowStr = ''1700000000000''\<rparr>"

definition constRnd :: "real \<Rightarrow> rnd" where
  "constRnd x =
     \<lparr>r_moveLat = x, r_moveLng = x, r_totalAssigned = x, r_assignAmount = (\<lambda>_. x),
      r_fill = (\<lambda>_. x), r_driftLat = x, r_driftLng = x, r_speed = x, r_fuelFlow = x,
      r_tilt = x, r_online = x, r_drainRate = (\<lambda>_. x), r_lossChance = (\<lambda>_. x),
      r_lossPercent = (\<lambda>_. x), r_theft = x, r_victim = x, r_stolen = x, r_valve = x,
      r_tiltEvent = x, r_tiltValue = x, r_offline = x, r_alert = x, r_alertType = x,
      r_alertSev1 = x, r_alertSev2 = x, r_alertIdText = ''0.5''\<rparr>"

definition midSeed :: seedDraws where
  "midSeed = \<lparr>sd_lat = 1 / 2, sd_lng = 1 / 2, sd_speed = 1 / 2, sd_fuelFlow = 1 / 2,
              sd_tilt = 1 / 2, sd_online = 1 / 2, sd_heading = 1 / 2\<rparr>"

definition demoAlerts :: "alert list" where
  "demoAlerts =
     [\<lparr>a_id = ''alert-1-theft'', a_type = Theft, a_severity = High,
       a_message = SuddenDrop ''C1'' 70, a_timestamp = 1, a_truckId = ''TK002'',
       a_acknowledged = False, a_location = None\<rparr>,
      \<lparr>a_id = ''alert-2-valve'', a_type = Valve, a_severity = Medium,
       a_message = ValveFault ''Fuel Express 02'', a_timestamp = 2, a_truckId = ''TK002'',
       a_acknowledged = False, a_location = None\<rparr>]"

text \<open>The seed truck TK002 with an assignment of 2500 L and 25 L of provisional loss.\<close>

definition assignedTK002 :: truck where
  "assignedTK002 = (TK002 env0 midSeed)\<lparr>t_currentAssignment := Some
      \<lparr>assignedLiters = 2500, startedAt = 0, perCompTargets = Map.empty,
       provisionalLossLiters = 25\<rparr>\<rparr>"

text \<open>The seed truck TK005 (uplifting) with every compartment at 4800 of 5000 L.\<close>

definition nearlyFullTK005 :: truck where
  "nearlyFullTK005 = (TK005 env0 midSeed)\<lparr>t_compartments :=
     [seedCompartment ''C1'' 5000 4800 ''Diesel'' False None,
      seedCompartment ''C2'' 5000 4800 ''Petrol'' False None,
      seedCompartment ''C3'' 5000 4800 ''Diesel'' False None,
      seedCompartment ''C4'' 5000 4800 ''Petrol'' False None]\<rparr>"

text \<open>The seed fleet with that truck in the place of TK002.\<close>

definition assignedFleet :: sim where
  "assignedFleet =
     \<lparr>trucks = [TK001 env0 midSeed, assignedTK002, TK003 env0 midSeed, TK004 env0 midSeed,
                TK005 env0 midSeed],
      alerts = [], totalSavings = 847562, fuelConsumptionData = [], fuelLossHistory = []\<rparr>"

section \<open>Predicates and quantities used in the statements\<close>

text \<open>The amount a theft event takes: \<^verbatim>\<open>Math.floor(Math.random() * 100) + 50\<close>.\<close>

definition stolenLiters :: "rnd \<Rightarrow> real" where
  "stolenLiters r = real_of_int (jsFloor (r_stolen r * 100) + 50)"

text \<open>The level invariant of the data model: \<open>0 \<le> currentLevel \<le> capacity\<close>.\<close>

definition levelOk :: "compartment \<Rightarrow> bool" where
  "levelOk c = (0 \<le> c_currentLevel c \<and> c_currentLevel c \<le> c_capacity c)"

definition levelsOk :: "sim \<Rightarrow> bool" where
  "levelsOk s = list_all (\<lambda>t. list_all levelOk (t_compartments t)) (trucks s)"

text \<open>
  A compartment has a delivery target when \<^verbatim>\<open>targetDelivery\<close> is set and positive
  (the code reads the field through \<^verbatim>\<open>targetDelivery || 0\<close>, and the \<^verbatim>\<open>completed\<close>
  branch resets it to 0); for such a compartment the delivered amount stays within it.
\<close>

definition deliveredOk :: "compartment \<Rightarrow> bool" where
  "deliveredOk c =
     (0 < orZero (c_targetDelivery c) \<longrightarrow>
      orZero (c_deliveredLiters c) \<le> orZero (c_targetDelivery c))"

definition deliveriesOk :: "sim \<Rightarrow> bool" where
  "deliveriesOk s = list_all (\<lambda>t. list_all deliveredOk (t_compartments t)) (trucks s)"

text \<open>The 5% reserve of the drain step is kept.\<close>

definition aboveReserve :: "compartment \<Rightarrow> bool" where
  "aboveReserve c = (c_capacity c * 0.05 \<le> c_currentLevel c)"



text \<open>The number of timer ticks among the events of a run.\<close>

fun isTick :: "event \<Rightarrow> bool" where
  "isTick (Tick e rs x) = True"
| "isTick _ = False"

definition tickCount :: "event list \<Rightarrow> nat" where
  "tickCount evs = length (filter isTick evs)"

text \<open>The fuel-loss entries among the state updates a truck's tick queued.\<close>

fun lossEntries :: "update list \<Rightarrow> fuelLossEntry list" where
  "lossEntries [] = []"
| "lossEntries (SetFuelLossHistory x # us) = x # lossEntries us"
| "lossEntries (_ # us) = lossEntries us"

text \<open>
  A trip completion: the truck is \<open>delivering\<close>, has a destination, and the position
  computed by this tick is closer to it than 0.005 (the branch that sets \<open>completed\<close>).
\<close>

definition reachesDestination :: "rnd \<Rightarrow> truck \<Rightarrow> bool" where
  "reachesDestination r t =
     (t_status t = Delivering \<and>
      (case t_destination t of
         None \<Rightarrow> False
       | Some dest \<Rightarrow>
           sqrt ((lat (t_position t) + (lat dest - lat (t_position t)) * 0.01 +
                    (r_moveLat r - 0.5) * 0.001 - lat dest)\<^sup>2 +
                 (lng (t_position t) + (lng dest - lng (t_position t)) * 0.01 +
                    (r_moveLng r - 0.5) * 0.001 - lng dest)\<^sup>2) < 0.005))"

text \<open>
  The fuel-loss entries of a tick of the fleet, in the order of the trucks: one for each
  truck that completes its trip and has a \<open>currentAssignment\<close>, with the fields the
  completion branch computes from the assignment and the compartments.
\<close>

definition completionEntries :: "env \<Rightarrow> (nat \<Rightarrow> rnd) \<Rightarrow> truck list \<Rightarrow> fuelLossEntry list" where
  "completionEntries e rs ts =
     concat (map (\<lambda>(i, t).
        if reachesDestination (rs i) t then
          (case t_currentAssignment t of
             None \<Rightarrow> []
           | Some ca \<Rightarrow>
               [\<lparr>h_timestamp = now e, h_truckId = t_id t,
                 h_assignedLiters = assignedLiters ca,
                 h_deliveredLiters = foldl (\<lambda>sum cmp. sum + orZero (c_deliveredLiters cmp)) 0
                                       (t_compartments t),
                 h_lossLiters = provisionalLossLiters ca,
                 h_lossPercent = (if assignedLiters ca > 0
                                  then (provisionalLossLiters ca / assignedLiters ca) * 100
                                  else 0)\<rparr>])
        else []) (enumerate 0 ts))"

text \<open>The trucks of a fleet that complete their trip in a tick and have an assignment.\<close>

definition completingTrucks :: "(nat \<Rightarrow> rnd) \<Rightarrow> truck list \<Rightarrow> (nat \<times> truck) list" where
  "completingTrucks rs ts =
     filter (\<lambda>(i, t). reachesDestination (rs i) t \<and> t_currentAssignment t \<noteq> None)
       (enumerate 0 ts)"

text \<open>
  The ticks a compartment needs at 40 L per tick to reach 95% of its capacity, and the
  worst case over the compartments of a truck (a number of ticks, so at least 0).
\<close>

definition upliftNeed :: "compartment \<Rightarrow> int" where
  "upliftNeed c = \<lceil>(c_capacity c * 0.95 - c_currentLevel c) / 40\<rceil>"

definition upliftBound :: "compartment list \<Rightarrow> nat" where
  "upliftBound cs = nat (foldr (\<lambda>c m. max (upliftNeed c) m) cs 0)"

section \<open>Basic facts\<close>

lemma validRnd_const: "0 \<le> x \<Longrightarrow> x < 1 \<Longrightarrow> validRnd (constRnd x)"
  by (simp add: validRnd_def constRnd_def unit01_def)

lemma floor_draw_bounds:
  assumes "unit01 x" "0 < k"
  shows "0 \<le> jsFloor (x * real_of_int k)" "jsFloor (x * real_of_int k) < k"
proof -
  have x: "0 \<le> x" "x < 1" using assms(1) by (simp_all add: unit01_def)
  have k: "0 < real_of_int k" using assms(2) by simp
  show "0 \<le> jsFloor (x * real_of_int k)"
    using x k by (simp add: jsFloor_def)
  have "x * real_of_int k < real_of_int k" using x k by simp
  then show "jsFloor (x * real_of_int k) < k"
    by (simp add: jsFloor_def floor_less_iff)
qed

text \<open>A draw in \<open>[0, 1)\<close> always picks an element of a non-empty array.\<close>

lemma pick_Some:
  assumes "unit01 x" "xs \<noteq> []"
  shows "\<exists>y. pick xs x = Some y \<and> y \<in> set xs"
proof -
  have pos: "0 < int (length xs)" using assms(2) by simp
  have lo: "0 \<le> jsFloor (x * real_of_int (int (length xs)))"
    and hi: "jsFloor (x * real_of_int (int (length xs))) < int (length xs)"
    using assms(1) pos by (rule floor_draw_bounds)+
  from lo hi have "nat (jsFloor (x * real (length xs))) < length xs" by simp
  with lo show ?thesis by (simp add: pick_def Let_def)
qed

lemma mapAccum_length: "length (fst (mapAccum f i xs s)) = length xs"
  by (induction xs arbitrary: i s) (simp_all add: split_beta Let_def)

lemma mapAccum_rel:
  assumes "\<And>i x s. x \<in> set xs \<Longrightarrow> R x (fst (f i x s))"
  shows "list_all2 R xs (fst (mapAccum f i xs s))"
  using assms
  by (induction xs arbitrary: i s) (simp_all add: split_beta Let_def)

section \<open>The two commands\<close>

lemma acknowledgeAlert_nth:
  "i < length prev \<Longrightarrow>
   acknowledgeAlert x prev ! i =
     (if a_id (prev ! i) = x then (prev ! i)\<lparr>a_acknowledged := True\<rparr> else prev ! i)"
  by (simp add: acknowledgeAlert_def)

lemma acknowledgeAlert_idem:
  "acknowledgeAlert x (acknowledgeAlert x prev) = acknowledgeAlert x prev"
  by (induction prev) (simp_all add: acknowledgeAlert_def)

lemma acknowledgeAlert_unknown:
  "x \<notin> a_id ` set prev \<Longrightarrow> acknowledgeAlert x prev = prev"
  by (induction prev) (auto simp: acknowledgeAlert_def)

text \<open>
  Claim C8. \<^verbatim>\<open>acknowledgeAlert(alertId)\<close> keeps the number and order of the alerts, sets
  \<open>acknowledged\<close> on the alerts whose id matches and changes no other field of any
  alert; applying it a second time changes nothing more, and with an id that no alert
  has the list is returned as it was.
\<close>

theorem acknowledgeAlert_spec:
  "length (acknowledgeAlert x prev) = length prev \<and>
   (\<forall>i < length prev.
      a_id (acknowledgeAlert x prev ! i) = a_id (prev ! i) \<and>
      a_type (acknowledgeAlert x prev ! i) = a_type (prev ! i) \<and>
      a_severity (acknowledgeAlert x prev ! i) = a_severity (prev ! i) \<and>
      a_message (acknowledgeAlert x prev ! i) = a_message (prev ! i) \<and>
      a_timestamp (acknowledgeAlert x prev ! i) = a_timestamp (prev ! i) \<and>
      a_truckId (acknowledgeAlert x prev ! i) = a_truckId (prev ! i) \<and>
      a_location (acknowledgeAlert x prev ! i) = a_location (prev ! i) \<and>
      a_acknowledged (acknowledgeAlert x prev ! i) =
        (a_id (prev ! i) = x \<or> a_acknowledged (prev ! i))) \<and>
   acknowledgeAlert x (acknowledgeAlert x prev) = acknowledgeAlert x prev \<and>
   (x \<notin> a_id ` set prev \<longrightarrow> acknowledgeAlert x prev = prev)"
  by (simp add: acknowledgeAlert_nth acknowledgeAlert_idem acknowledgeAlert_unknown)
     (simp add: acknowledgeAlert_def)

theorem acknowledgeAlert_spec_witness:
  "a_acknowledged (acknowledgeAlert ''alert-1-theft'' demoAlerts ! 0) \<and>
   \<not> a_acknowledged (acknowledgeAlert ''alert-1-theft'' demoAlerts ! 1) \<and>
   acknowledgeAlert ''alert-1-theft'' (acknowledgeAlert ''alert-1-theft'' demoAlerts) =
     acknowledgeAlert ''alert-1-theft'' demoAlerts \<and>
   acknowledgeAlert ''alert-9'' demoAlerts = demoAlerts"
proof -
  have len: "length demoAlerts = 2" by (simp add: demoAlerts_def)
  have unknown: "''alert-9'' \<notin> a_id ` set demoAlerts" by (simp add: demoAlerts_def)
  have ids: "a_id (demoAlerts ! 0) = ''alert-1-theft''" "a_id (demoAlerts ! 1) \<noteq> ''alert-1-theft''"
    "\<not> a_acknowledged (demoAlerts ! 1)"
    by (simp_all add: demoAlerts_def)
  from acknowledgeAlert_spec [of "''alert-1-theft''" demoAlerts] len ids
  have "a_acknowledged (acknowledgeAlert ''alert-1-theft'' demoAlerts ! 0)"
    and "\<not> a_acknowledged (acknowledgeAlert ''alert-1-theft'' demoAlerts ! 1)"
    and "acknowledgeAlert ''alert-1-theft'' (acknowledgeAlert ''alert-1-theft'' demoAlerts) =
     acknowledgeAlert ''alert-1-theft'' demoAlerts"
    by simp_all
  moreover from acknowledgeAlert_spec [of "''alert-9''" demoAlerts] unknown
  have "acknowledgeAlert ''alert-9'' demoAlerts = demoAlerts" by blast
  ultimately show ?thesis by blast
qed

lemma assignTrip_nth:
  "i < length prev \<Longrightarrow>
   assignTrip x d prev ! i =
     (if t_id (prev ! i) = x
      then (prev ! i)\<lparr>t_status := Assigned, t_destination := Some d,
                      t_startPoint := Some (t_position (prev ! i))\<rparr>
      else prev ! i)"
  by (simp add: assignTrip_def)

lemma assignTrip_unknown: "x \<notin> t_id ` set prev \<Longrightarrow> assignTrip x d prev = prev"
  by (induction prev) (auto simp: assignTrip_def)

text \<open>
  Claim C7. \<^verbatim>\<open>assignTrip(truckId, destination)\<close>: when no truck has the id, the whole
  state is unchanged; a truck with the id, whatever its status was, gets status
  \<open>assigned\<close>, the given destination and its current position as start point, and
  keeps every other field; all other trucks and the other state cells are unchanged.
\<close>

theorem assignTrip_spec:
  "(truckId \<notin> t_id ` set (trucks s) \<longrightarrow> step (AssignTrip truckId destination) s = s) \<and>
   alerts (step (AssignTrip truckId destination) s) = alerts s \<and>
   totalSavings (step (AssignTrip truckId destination) s) = totalSavings s \<and>
   fuelConsumptionData (step (AssignTrip truckId destination) s) = fuelConsumptionData s \<and>
   fuelLossHistory (step (AssignTrip truckId destination) s) = fuelLossHistory s \<and>
   length (trucks (step (AssignTrip truckId destination) s)) = length (trucks s) \<and>
   (\<forall>i < length (trucks s).
      if t_id (trucks s ! i) = truckId
      then t_status (trucks (step (AssignTrip truckId destination) s) ! i) = Assigned \<and>
           t_destination (trucks (step (AssignTrip truckId destination) s) ! i) = Some destination \<and>
           t_startPoint (trucks (step (AssignTrip truckId destination) s) ! i) =
             Some (t_position (trucks s ! i)) \<and>
           t_id (trucks (step (AssignTrip truckId destination) s) ! i) = t_id (trucks s ! i) \<and>
           t_name (trucks (step (AssignTrip truckId destination) s) ! i) = t_name (trucks s ! i) \<and>
           t_driver (trucks (step (AssignTrip truckId destination) s) ! i) = t_driver (trucks s ! i) \<and>
           t_client (trucks (step (AssignTrip truckId destination) s) ! i) = t_client (trucks s ! i) \<and>
           t_position (trucks (step (AssignTrip truckId destination) s) ! i) = t_position (trucks s ! i) \<and>
           t_compartments (trucks (step (AssignTrip truckId destination) s) ! i) =
             t_compartments (trucks s ! i) \<and>
           t_telemetry (trucks (step (AssignTrip truckId destination) s) ! i) = t_telemetry (trucks s ! i) \<and>
           t_logs (trucks (step (AssignTrip truckId destination) s) ! i) = t_logs (trucks s ! i) \<and>
           t_alerts (trucks (step (AssignTrip truckId destination) s) ! i) = t_alerts (trucks s ! i) \<and>
           t_trail (trucks (step (AssignTrip truckId destination) s) ! i) = t_trail (trucks s ! i) \<and>
           t_currentAssignment (trucks (step (AssignTrip truckId destination) s) ! i) =
             t_currentAssignment (trucks s ! i) \<and>
           t_lastTripSummary (trucks (step (AssignTrip truckId destination) s) ! i) =
             t_lastTripSummary (trucks s ! i)
      else trucks (step (AssignTrip truckId destination) s) ! i = trucks s ! i)"
  by (simp add: assignTrip_nth assignTrip_unknown) (simp add: assignTrip_def)

lemma initialSim_ids:
  "map t_id (trucks (initialSim e sds)) = [''TK001'', ''TK002'', ''TK003'', ''TK004'', ''TK005'']"
  by (simp add: initialSim_def TK001_def TK002_def TK003_def TK004_def TK005_def seedTruck_def)

theorem assignTrip_spec_witness:
  "step (AssignTrip ''TK999'' QURUM_SHELL) (initialSim env0 (\<lambda>_. midSeed)) =
     initialSim env0 (\<lambda>_. midSeed) \<and>
   t_status (trucks (step (AssignTrip ''TK002'' QURUM_SHELL) (initialSim env0 (\<lambda>_. midSeed))) ! 1) =
     Assigned \<and>
   t_destination (trucks (step (AssignTrip ''TK002'' QURUM_SHELL) (initialSim env0 (\<lambda>_. midSeed))) ! 1) =
     Some QURUM_SHELL \<and>
   trucks (step (AssignTrip ''TK002'' QURUM_SHELL) (initialSim env0 (\<lambda>_. midSeed))) ! 0 =
     trucks (initialSim env0 (\<lambda>_. midSeed)) ! 0"
proof -
  let ?s = "initialSim env0 (\<lambda>_. midSeed)"
  have ids: "map t_id (trucks ?s) = [''TK001'', ''TK002'', ''TK003'', ''TK004'', ''TK005'']"
    by (rule initialSim_ids)
  have len: "length (trucks ?s) = 5" using arg_cong [OF ids, of length] by simp
  have unknown: "''TK999'' \<notin> t_id ` set (trucks ?s)"
    using arg_cong [OF ids, of set] by simp
  have i0: "t_id (trucks ?s ! 0) \<noteq> ''TK002''" and i1: "t_id (trucks ?s ! 1) = ''TK002''"
    by (simp_all add: initialSim_def TK001_def TK002_def seedTruck_def)
  from assignTrip_spec [of "''TK999''" ?s QURUM_SHELL] unknown
  have a: "step (AssignTrip ''TK999'' QURUM_SHELL) ?s = ?s" by blast
  have b: "\<forall>i < length (trucks ?s).
      if t_id (trucks ?s ! i) = ''TK002''
      then t_status (trucks (step (AssignTrip ''TK002'' QURUM_SHELL) ?s) ! i) = Assigned \<and>
           t_destination (trucks (step (AssignTrip ''TK002'' QURUM_SHELL) ?s) ! i) = Some QURUM_SHELL \<and>
           t_startPoint (trucks (step (AssignTrip ''TK002'' QURUM_SHELL) ?s) ! i) =
             Some (t_position (trucks ?s ! i)) \<and>
           t_id (trucks (step (AssignTrip ''TK002'' QURUM_SHELL) ?s) ! i) = t_id (trucks ?s ! i) \<and>
           t_name (trucks (step (AssignTrip ''TK002'' QURUM_SHELL) ?s) ! i) = t_name (trucks ?s ! i) \<and>
           t_driver (trucks (step (AssignTrip ''TK002'' QURUM_SHELL) ?s) ! i) = t_driver (trucks ?s ! i) \<and>
           t_client (trucks (step (AssignTrip ''TK002'' QURUM_SHELL) ?s) ! i) = t_client (trucks ?s ! i) \<and>
           t_position (trucks (step (AssignTrip ''TK002'' QURUM_SHELL) ?s) ! i) = t_position (trucks ?s ! i) \<and>
           t_compartments (trucks (step (AssignTrip ''TK002'' QURUM_SHELL) ?s) ! i) =
             t_compartments (trucks ?s ! i) \<and>
           t_telemetry (trucks (step (AssignTrip ''TK002'' QURUM_SHELL) ?s) ! i) = t_telemetry (trucks ?s ! i) \<and>
           t_logs (trucks (step (AssignTrip ''TK002'' QURUM_SHELL) ?s) ! i) = t_logs (trucks ?s ! i) \<and>
           t_alerts (trucks (step (AssignTrip ''TK002'' QURUM_SHELL) ?s) ! i) = t_alerts (trucks ?s ! i) \<and>
           t_trail (trucks (step (AssignTrip ''TK002'' QURUM_SHELL) ?s) ! i) = t_trail (trucks ?s ! i) \<and>
           t_currentAssignment (trucks (step (AssignTrip ''TK002'' QURUM_SHELL) ?s) ! i) =
             t_currentAssignment (trucks ?s ! i) \<and>
           t_lastTripSummary (trucks (step (AssignTrip ''TK002'' QURUM_SHELL) ?s) ! i) =
             t_lastTripSummary (trucks ?s ! i)
      else trucks (step (AssignTrip ''TK002'' QURUM_SHELL) ?s) ! i = trucks ?s ! i"
    using assignTrip_spec [of "''TK002''" ?s QURUM_SHELL] by blast
  from b [rule_format, of 0] b [rule_format, of 1] len i0 i1 a show ?thesis by simp
qed

section \<open>The tick, phase by phase\<close>

lemma list_all2_preserves:
  assumes "list_all2 R xs ys" "\<forall>x\<in>set xs. P x" "\<And>x y. P x \<Longrightarrow> R x y \<Longrightarrow> Q y"
  shows "\<forall>y\<in>set ys. Q y"
  using assms by (induction rule: list_all2_induct) auto

lemma mapAccum_preserves:
  assumes "\<And>i x s. P x \<Longrightarrow> Q (fst (f i x s))" "\<forall>x\<in>set xs. P x"
  shows "\<forall>y\<in>set (fst (mapAccum f i xs s)). Q y"
proof -
  have "list_all2 (\<lambda>x y. P x \<longrightarrow> Q y) xs (fst (mapAccum f i xs s))"
    by (rule mapAccum_rel) (simp add: assms(1))
  then show ?thesis using assms(2) by (rule list_all2_preserves) simp
qed

subsection \<open>What each phase of the tick leaves alone\<close>

lemma refreshTelemetry_frame [simp]:
  "t_status (refreshTelemetry e r t nt) = t_status nt"
  "t_compartments (refreshTelemetry e r t nt) = t_compartments nt"
  "t_destination (refreshTelemetry e r t nt) = t_destination nt"
  "t_startPoint (refreshTelemetry e r t nt) = t_startPoint nt"
  "t_trail (refreshTelemetry e r t nt) = t_trail nt"
  "t_currentAssignment (refreshTelemetry e r t nt) = t_currentAssignment nt"
  "t_position (refreshTelemetry e r t nt) = t_position nt"
  by (simp_all add: refreshTelemetry_def Let_def)

lemma addToTrail_frame [simp]:
  "t_status (addToTrail e t nt) = t_status nt"
  "t_compartments (addToTrail e t nt) = t_compartments nt"
  "t_destination (addToTrail e t nt) = t_destination nt"
  "t_startPoint (addToTrail e t nt) = t_startPoint nt"
  "t_currentAssignment (addToTrail e t nt) = t_currentAssignment nt"
  "t_position (addToTrail e t nt) = t_position nt"
  "t_trail (addToTrail e t nt) = lastN 20 (t_trail t) @
     [\<lparr>lat = lat (t_position nt), lng = lng (t_position nt), tp_timestamp = now e\<rparr>]"
  by (simp_all add: addToTrail_def)

lemma valveEvent_frame [simp]:
  "t_status (fst (valveEvent e r t st)) = t_status (fst st)"
  "t_compartments (fst (valveEvent e r t st)) = t_compartments (fst st)"
  "t_destination (fst (valveEvent e r t st)) = t_destination (fst st)"
  "t_startPoint (fst (valveEvent e r t st)) = t_startPoint (fst st)"
  "t_trail (fst (valveEvent e r t st)) = t_trail (fst st)"
  "t_currentAssignment (fst (valveEvent e r t st)) = t_currentAssignment (fst st)"
  "t_position (fst (valveEvent e r t st)) = t_position (fst st)"
  by (simp_all add: valveEvent_def Let_def split_beta)

lemma tiltEvent_frame [simp]:
  "t_status (fst (tiltEvent e r t st)) = t_status (fst st)"
  "t_compartments (fst (tiltEvent e r t st)) = t_compartments (fst st)"
  "t_destination (fst (tiltEvent e r t st)) = t_destination (fst st)"
  "t_startPoint (fst (tiltEvent e r t st)) = t_startPoint (fst st)"
  "t_trail (fst (tiltEvent e r t st)) = t_trail (fst st)"
  "t_currentAssignment (fst (tiltEvent e r t st)) = t_currentAssignment (fst st)"
  "t_position (fst (tiltEvent e r t st)) = t_position (fst st)"
  by (simp_all add: tiltEvent_def Let_def split_beta)

lemma offlineEvent_frame [simp]:
  "t_status (fst (offlineEvent e r t st)) = t_status (fst st)"
  "t_compartments (fst (offlineEvent e r t st)) = t_compartments (fst st)"
  "t_destination (fst (offlineEvent e r t st)) = t_destination (fst st)"
  "t_startPoint (fst (offlineEvent e r t st)) = t_startPoint (fst st)"
  "t_trail (fst (offlineEvent e r t st)) = t_trail (fst st)"
  "t_currentAssignment (fst (offlineEvent e r t st)) = t_currentAssignment (fst st)"
  "t_position (fst (offlineEvent e r t st)) = t_position (fst st)"
  by (simp_all add: offlineEvent_def Let_def split_beta)

lemma randomAlert_fst [simp]: "fst (randomAlert e r t st) = fst st"
  by (simp add: randomAlert_def split_beta split: option.splits)

lemma trackConsumption_fst [simp]: "fst (trackConsumption e t st) = fst st"
  by (simp add: trackConsumption_def split_beta)

lemma theftEvent_frame [simp]:
  "t_status (fst (theftEvent e r t st)) = t_status (fst st)"
  "t_destination (fst (theftEvent e r t st)) = t_destination (fst st)"
  "t_startPoint (fst (theftEvent e r t st)) = t_startPoint (fst st)"
  "t_trail (fst (theftEvent e r t st)) = t_trail (fst st)"
  "t_currentAssignment (fst (theftEvent e r t st)) = t_currentAssignment (fst st)"
  "t_position (fst (theftEvent e r t st)) = t_position (fst st)"
  by (simp_all add: theftEvent_def Let_def split_beta split: option.splits)

text \<open>The amount a theft takes, and what it does to one compartment.\<close>

lemma theftEvent_compartments:
  "list_all2 (\<lambda>c c'. c' = c \<or>
       c' = c\<lparr>c_currentLevel := max 0 (c_currentLevel c - stolenLiters r)\<rparr>)
     (t_compartments (fst st)) (t_compartments (fst (theftEvent e r t st)))"
  by (simp add: theftEvent_def stolenLiters_def Let_def split_beta list_all2_map2 list.rel_refl
        split: option.splits)

lemma drainComp_frame:
  "t_status (fst (snd (drainComp e r t i c s))) = t_status (fst s)"
  "t_destination (fst (snd (drainComp e r t i c s))) = t_destination (fst s)"
  "t_startPoint (fst (snd (drainComp e r t i c s))) = t_startPoint (fst s)"
  "t_trail (fst (snd (drainComp e r t i c s))) = t_trail (fst s)"
  "t_position (fst (snd (drainComp e r t i c s))) = t_position (fst s)"
  by (simp_all add: drainComp_def Let_def split_beta split: option.splits)

lemma mapAccum_state_invariant:
  assumes "\<And>i x s. g (snd (f i x s)) = g s"
  shows "g (snd (mapAccum f i xs s)) = g s"
  by (induction xs arbitrary: i s) (simp_all add: split_beta Let_def assms)

lemma drainLoop_frame [simp]:
  "t_status (fst (snd (mapAccum (drainComp e r t) i cs s))) = t_status (fst s)"
  "t_destination (fst (snd (mapAccum (drainComp e r t) i cs s))) = t_destination (fst s)"
  "t_startPoint (fst (snd (mapAccum (drainComp e r t) i cs s))) = t_startPoint (fst s)"
  "t_trail (fst (snd (mapAccum (drainComp e r t) i cs s))) = t_trail (fst s)"
  "t_position (fst (snd (mapAccum (drainComp e r t) i cs s))) = t_position (fst s)"
  by (rule mapAccum_state_invariant [where g = "\<lambda>s. t_status (fst s)"], rule drainComp_frame,
      rule mapAccum_state_invariant [where g = "\<lambda>s. t_destination (fst s)"], rule drainComp_frame,
      rule mapAccum_state_invariant [where g = "\<lambda>s. t_startPoint (fst s)"], rule drainComp_frame,
      rule mapAccum_state_invariant [where g = "\<lambda>s. t_trail (fst s)"], rule drainComp_frame,
      rule mapAccum_state_invariant [where g = "\<lambda>s. t_position (fst s)"], rule drainComp_frame)

lemma deliver_frame [simp]:
  "t_status (fst (deliver e r t st)) = t_status (fst st)"
  "t_destination (fst (deliver e r t st)) = t_destination (fst st)"
  "t_startPoint (fst (deliver e r t st)) = t_startPoint (fst st)"
  "t_trail (fst (deliver e r t st)) = t_trail (fst st)"
  "t_position (fst (deliver e r t st)) = t_position (fst st)"
  by (simp_all add: deliver_def Let_def split_beta)

lemma tickTruck_status:
  "t_status (fst (tickTruck e r t)) = t_status (fst (stepStatus e r t (t, [])))"
  by (simp add: tickTruck_def Let_def split_beta)

lemma tickTruck_destination:
  "t_destination (fst (tickTruck e r t)) = t_destination (fst (stepStatus e r t (t, [])))"
  "t_startPoint (fst (tickTruck e r t)) = t_startPoint (fst (stepStatus e r t (t, [])))"
  by (simp_all add: tickTruck_def Let_def split_beta)

lemma tickTruck_trail:
  "t_trail (fst (tickTruck e r t)) = lastN 20 (t_trail t) @
     [\<lparr>lat = lat (t_position (fst (stepStatus e r t (t, [])))),
       lng = lng (t_position (fst (stepStatus e r t (t, [])))), tp_timestamp = now e\<rparr>]"
  by (simp add: tickTruck_def Let_def split_beta)

lemma arrive_frame [simp]:
  "t_compartments (fst (arrive e t st)) = t_compartments (fst st)"
  "t_destination (fst (arrive e t st)) = t_destination (fst st)"
  "t_startPoint (fst (arrive e t st)) = t_startPoint (fst st)"
  "t_currentAssignment (fst (arrive e t st)) = t_currentAssignment (fst st)"
  "t_status (fst (arrive e t st)) = Completed"
  by (simp_all add: arrive_def Let_def split_beta split: option.splits)

lemma moveToDestination_frame [simp]:
  "t_compartments (fst (moveToDestination e r t d st)) = t_compartments (fst st)"
  "t_destination (fst (moveToDestination e r t d st)) = t_destination (fst st)"
  "t_startPoint (fst (moveToDestination e r t d st)) = t_startPoint (fst st)"
  "t_currentAssignment (fst (moveToDestination e r t d st)) = t_currentAssignment (fst st)"
  by (simp_all add: moveToDestination_def Let_def split_beta)

lemma drift_frame [simp]:
  "t_compartments (fst (drift r t st)) = t_compartments (fst st)"
  "t_destination (fst (drift r t st)) = t_destination (fst st)"
  "t_startPoint (fst (drift r t st)) = t_startPoint (fst st)"
  "t_currentAssignment (fst (drift r t st)) = t_currentAssignment (fst st)"
  "t_status (fst (drift r t st)) = t_status (fst st)"
  by (simp_all add: drift_def split_beta)

lemma startDelivery_fields [simp]:
  "t_status (fst (startDelivery e r t st)) = Delivering"
  "t_compartments (fst (startDelivery e r t st)) =
     fst (mapAccum (assignTarget r) 0 (t_compartments t)
            (real_of_int (jsFloor (r_totalAssigned r * 2500) + 2500), Map.empty))"
  "t_destination (fst (startDelivery e r t st)) = t_destination (fst st)"
  "t_startPoint (fst (startDelivery e r t st)) = t_startPoint (fst st)"
  by (simp_all add: startDelivery_def Let_def split_beta)

lemma refill_fields [simp]:
  "t_compartments (fst (refill e r t st)) =
     fst (mapAccum (refillComp e r) 0 (t_compartments t) (t_logs (fst st)))"
  by (simp add: refill_def Let_def split_beta)

lemma toUplifting_fields [simp]:
  "t_status (fst (toUplifting t st)) = Uplifting"
  "t_compartments (fst (toUplifting t st)) =
     map (\<lambda>cmp. cmp\<lparr>c_isOffloading := False, c_targetDelivery := Some 0\<rparr>) (t_compartments t)"
  "t_destination (fst (toUplifting t st)) = t_destination (fst st)"
  "t_startPoint (fst (toUplifting t st)) = t_startPoint (fst st)"
  by (simp_all add: toUplifting_def split_beta)

lemma stepStatus_compartments_preserves:
  assumes assign: "\<And>i c s. P c \<Longrightarrow> P (fst (assignTarget r i c s))"
      and fill: "\<And>i c s. P c \<Longrightarrow> P (fst (refillComp e r i c s))"
      and reset: "\<And>c. P c \<Longrightarrow> P (c\<lparr>c_isOffloading := False, c_targetDelivery := Some 0\<rparr>)"
      and inv: "\<forall>c\<in>set (t_compartments t). P c"
  shows "\<forall>c\<in>set (t_compartments (fst (stepStatus e r t (t, ups)))). P c"
proof (cases "if t_status t = Delivering then t_destination t else None")
  case (Some d)
  then show ?thesis using inv by (simp add: stepStatus_def)
next
  case None
  consider "t_status t = Assigned" | "t_status t = Uplifting" | "t_status t = Completed"
    | "t_status t \<noteq> Assigned" "t_status t \<noteq> Uplifting" "t_status t \<noteq> Completed"
    by blast
  then show ?thesis
  proof cases
    case 1
    then show ?thesis using None mapAccum_preserves [of P P "assignTarget r", OF assign inv]
      by (simp add: stepStatus_def)
  next
    case 2
    then show ?thesis using None mapAccum_preserves [of P P "refillComp e r", OF fill inv]
      by (simp add: stepStatus_def)
  next
    case 3
    then show ?thesis using None inv reset by (simp add: stepStatus_def)
  next
    case 4
    then show ?thesis using None inv by (simp add: stepStatus_def)
  qed
qed

lemma deliver_compartments_preserves:
  assumes drain: "\<And>i c s. P c \<Longrightarrow> P (fst (drainComp e r t i c s))"
      and theft: "\<And>c. P c \<Longrightarrow> P (c\<lparr>c_currentLevel := max 0 (c_currentLevel c - stolenLiters r)\<rparr>)"
      and inv: "\<forall>c\<in>set (t_compartments t). P c"
  shows "\<forall>c\<in>set (t_compartments (fst (deliver e r t st))). P c"
proof -
  define D where "D = mapAccum (drainComp e r t) 0 (t_compartments t) (fst st, snd st, 0)"
  define st2 where "st2 = ((fst (snd D))\<lparr>t_compartments := fst D\<rparr>, fst (snd (snd D)))"
  have d: "\<forall>c\<in>set (fst D). P c"
    unfolding D_def using drain inv by (rule mapAccum_preserves)
  have "list_all2 (\<lambda>c c'. c' = c \<or>
       c' = c\<lparr>c_currentLevel := max 0 (c_currentLevel c - stolenLiters r)\<rparr>)
     (t_compartments (fst st2)) (t_compartments (fst (theftEvent e r t st2)))"
    by (rule theftEvent_compartments)
  moreover have "\<forall>c\<in>set (t_compartments (fst st2)). P c" using d by (simp add: st2_def)
  ultimately have "\<forall>c\<in>set (t_compartments (fst (theftEvent e r t st2))). P c"
    by (rule list_all2_preserves) (auto intro: theft)
  moreover have "t_compartments (fst (deliver e r t st)) =
                 t_compartments (fst (theftEvent e r t st2))"
    by (simp add: deliver_def Let_def split_beta st2_def D_def)
  ultimately show ?thesis by simp
qed

lemma tickTruck_compartments_preserves:
  assumes assign: "\<And>i c s. P c \<Longrightarrow> P (fst (assignTarget r i c s))"
      and fill: "\<And>i c s. P c \<Longrightarrow> P (fst (refillComp e r i c s))"
      and reset: "\<And>c. P c \<Longrightarrow> P (c\<lparr>c_isOffloading := False, c_targetDelivery := Some 0\<rparr>)"
      and drain: "\<And>i c s. P c \<Longrightarrow> P (fst (drainComp e r t i c s))"
      and theft: "\<And>c. P c \<Longrightarrow> P (c\<lparr>c_currentLevel := max 0 (c_currentLevel c - stolenLiters r)\<rparr>)"
      and inv: "\<forall>c\<in>set (t_compartments t). P c"
  shows "\<forall>c\<in>set (t_compartments (fst (tickTruck e r t))). P c"
proof (cases "t_status t = Delivering")
  case True
  then have "t_compartments (fst (tickTruck e r t)) =
        t_compartments (fst (deliver e r t
           (refreshTelemetry e r t (fst (stepStatus e r t (t, []))), snd (stepStatus e r t (t, [])))))"
    by (simp add: tickTruck_def Let_def split_beta)
  then show ?thesis using deliver_compartments_preserves [of P e r t, OF drain theft inv] by simp
next
  case False
  then have "t_compartments (fst (tickTruck e r t)) =
        t_compartments (fst (stepStatus e r t (t, [])))"
    by (simp add: tickTruck_def Let_def split_beta)
  then show ?thesis
    using stepStatus_compartments_preserves [of P r e t, OF assign fill reset inv] by simp
qed

subsection \<open>One compartment, one step\<close>


lemma drainComp_levelOk: "levelOk c \<Longrightarrow> levelOk (fst (drainComp e r t i c s))"
  by (auto simp: drainComp_def levelOk_def Let_def split_beta)

lemma assignTarget_levelOk: "levelOk c \<Longrightarrow> levelOk (fst (assignTarget r i c s))"
  by (auto simp: assignTarget_def levelOk_def Let_def split_beta)

lemma refillComp_levelOk:
  assumes "unit01 (r_fill r i)" "levelOk c"
  shows "levelOk (fst (refillComp e r i c s))"
proof -
  have "0 \<le> jsFloor (r_fill r i * real_of_int 40)"
    using assms(1) by (rule floor_draw_bounds) simp
  then have "0 \<le> real_of_int (jsFloor (r_fill r i * 40))" by simp
  then show ?thesis using assms(2)
    by (auto simp: refillComp_def levelOk_def Let_def)
qed

lemma theft_levelOk:
  assumes "unit01 (r_stolen r)" "levelOk c"
  shows "levelOk (c\<lparr>c_currentLevel := max 0 (c_currentLevel c - stolenLiters r)\<rparr>)"
proof -
  have "0 \<le> jsFloor (r_stolen r * real_of_int 100)"
    using assms(1) by (rule floor_draw_bounds) simp
  then have "50 \<le> stolenLiters r" by (simp add: stolenLiters_def)
  then show ?thesis using assms(2)
    by (auto simp: levelOk_def)
qed

lemma tickTruck_levelOk:
  assumes "validRnd r" "\<forall>c\<in>set (t_compartments t). levelOk c"
  shows "\<forall>c\<in>set (t_compartments (fst (tickTruck e r t))). levelOk c"
proof (rule tickTruck_compartments_preserves [of levelOk])
  show "\<forall>c\<in>set (t_compartments t). levelOk c" by (rule assms(2))
  show "\<And>i c s. levelOk c \<Longrightarrow> levelOk (fst (refillComp e r i c s))"
    using assms(1) by (simp add: refillComp_levelOk validRnd_def)
  show "\<And>c. levelOk c \<Longrightarrow> levelOk (c\<lparr>c_currentLevel := max 0 (c_currentLevel c - stolenLiters r)\<rparr>)"
    using assms(1) by (simp add: theft_levelOk validRnd_def)
  show "\<And>c. levelOk c \<Longrightarrow> levelOk (c\<lparr>c_isOffloading := False, c_targetDelivery := Some 0\<rparr>)"
    by (simp add: levelOk_def)
qed (simp_all add: drainComp_levelOk assignTarget_levelOk)

section \<open>Invariants of the compartments\<close>

subsection \<open>From one truck to the fleet, from one event to a run\<close>

lemma foldl_applyUpdate_trucks [simp]:
  "trucks (foldl (\<lambda>st u. applyUpdate u st) s us) = trucks s"
proof (induction us arbitrary: s)
  case Nil
  show ?case by simp
next
  case (Cons u us)
  show ?case by (cases u) (simp_all add: Cons.IH)
qed

lemma tick_trucks:
  "trucks (tick e rs x s) =
     map (\<lambda>(i, t). fst (tickTruck e (rs i) t)) (enumerate 0 (trucks s))"
  by (simp add: tick_def Let_def split_beta)

lemma tick_trucks_preserves:
  assumes "\<And>i t. Q t \<Longrightarrow> Q (fst (tickTruck e (rs i) t))" "list_all Q (trucks s)"
  shows "list_all Q (trucks (tick e rs x s))"
  using assms by (auto simp: tick_trucks list_all_iff in_set_enumerate_eq)

lemma assignTrip_preserves:
  assumes "\<And>t d. Q t \<Longrightarrow>
      Q (t\<lparr>t_status := Assigned, t_destination := Some d, t_startPoint := Some (t_position t)\<rparr>)"
    "list_all Q prev"
  shows "list_all Q (assignTrip x d prev)"
  using assms by (auto simp: assignTrip_def list_all_iff)

lemma run_preserves:
  assumes "\<And>ev st. ev \<in> set evs \<Longrightarrow> I st \<Longrightarrow> I (step ev st)" "I s"
  shows "I (run evs s)"
  using assms unfolding run_def
  by (induction evs arbitrary: s) simp_all

lemma step_levelsOk:
  assumes "validEvent ev" "levelsOk s"
  shows "levelsOk (step ev s)"
proof (cases ev)
  case (Tick e rs x)
  then have v: "\<And>i. validRnd (rs i)" using assms(1) by simp
  have "list_all (\<lambda>t. list_all levelOk (t_compartments t)) (trucks (tick e rs x s))"
  proof (rule tick_trucks_preserves)
    show "list_all (\<lambda>t. list_all levelOk (t_compartments t)) (trucks s)"
      using assms(2) by (simp add: levelsOk_def)
    show "\<And>i t. list_all levelOk (t_compartments t) \<Longrightarrow>
            list_all levelOk (t_compartments (fst (tickTruck e (rs i) t)))"
      using tickTruck_levelOk [OF v] by (simp add: list_all_iff)
  qed
  then show ?thesis using Tick by (simp add: levelsOk_def)
next
  case (AssignTrip x d)
  have "list_all (\<lambda>t. list_all levelOk (t_compartments t)) (assignTrip x d (trucks s))"
    by (rule assignTrip_preserves) (use assms(2) in \<open>simp_all add: levelsOk_def\<close>)
  then show ?thesis using AssignTrip by (simp add: levelsOk_def)
next
  case (AcknowledgeAlert x)
  then show ?thesis using assms(2) by (simp add: levelsOk_def)
qed

text \<open>
  Claim C3. If every compartment of every truck starts with \<open>0 \<le> currentLevel \<le> capacity\<close>,
  then after any sequence of ticks (with any draws in \<open>[0, 1)\<close>) and commands every
  compartment still has \<open>0 \<le> currentLevel \<le> capacity\<close>: draining and theft do not go
  below 0, refilling does not go above the capacity.
\<close>

theorem levels_within_capacity:
  assumes "levelsOk s" "\<forall>ev\<in>set evs. validEvent ev"
  shows "levelsOk (run evs s)"
  using assms(2) step_levelsOk assms(1) by (intro run_preserves [of evs levelsOk]) auto

lemma initialSim_levelsOk: "levelsOk (initialSim e sds)"
  by (simp add: levelsOk_def initialSim_def TK001_def TK002_def TK003_def TK004_def TK005_def
      seedTruck_def seedCompartment_def levelOk_def)

theorem levels_within_capacity_witness:
  "levelsOk (run [Tick env0 (\<lambda>_. constRnd (1 / 2)) (1 / 2), AssignTrip ''TK001'' QURUM_SHELL,
                  Tick env0 (\<lambda>_. constRnd 0) 0]
               (initialSim env0 (\<lambda>_. midSeed)))"
proof -
  have "\<forall>ev\<in>set [Tick env0 (\<lambda>_. constRnd (1 / 2)) (1 / 2), AssignTrip ''TK001'' QURUM_SHELL,
                  Tick env0 (\<lambda>_. constRnd 0) 0]. validEvent ev"
    by (simp add: validRnd_const unit01_def)
  with initialSim_levelsOk show ?thesis by (rule levels_within_capacity)
qed

subsection \<open>Delivered against target\<close>

lemma orZero_simps [simp]: "orZero None = 0" "orZero (Some v) = v"
  by (simp_all add: orZero_def)

text \<open>The drain callback either returns the compartment as it is or drains \<open>m > 0\<close>.\<close>

lemma drainComp_cases:
  obtains (unchanged) "fst (drainComp e r t i c st) = c"
  | (drained) m where "0 < m"
      "m \<le> orZero (c_targetDelivery c) - orZero (c_deliveredLiters c)"
      "m \<le> c_currentLevel c - c_capacity c * 0.05"
      "c_currentLevel (fst (drainComp e r t i c st)) = c_currentLevel c - m"
      "c_deliveredLiters (fst (drainComp e r t i c st)) = Some (orZero (c_deliveredLiters c) + m)"
      "c_capacity (fst (drainComp e r t i c st)) = c_capacity c"
      "c_targetDelivery (fst (drainComp e r t i c st)) = c_targetDelivery c"
proof -
  define m where "m = min (min (real_of_int (jsFloor (r_drainRate r i * 40) + 20))
                       (orZero (c_targetDelivery c) - orZero (c_deliveredLiters c)))
                  (c_currentLevel c - c_capacity c * 0.05)"
  show thesis
  proof (cases "c_isOffloading c \<and> 0 < c_currentLevel c \<and>
            orZero (c_deliveredLiters c) < orZero (c_targetDelivery c) \<and> 0 < m")
    case True
    then have "0 < m" by simp
    moreover have "m \<le> orZero (c_targetDelivery c) - orZero (c_deliveredLiters c)"
      "m \<le> c_currentLevel c - c_capacity c * 0.05"
      by (simp_all add: m_def)
    moreover have "c_currentLevel (fst (drainComp e r t i c st)) = c_currentLevel c - m"
      "c_deliveredLiters (fst (drainComp e r t i c st)) = Some (orZero (c_deliveredLiters c) + m)"
      "c_capacity (fst (drainComp e r t i c st)) = c_capacity c"
      "c_targetDelivery (fst (drainComp e r t i c st)) = c_targetDelivery c"
      using True unfolding m_def by (simp_all add: drainComp_def Let_def split_beta)
    ultimately show thesis by (rule drained)
  next
    case False
    then have "fst (drainComp e r t i c st) = c"
      unfolding m_def by (auto simp: drainComp_def Let_def split_beta)
    then show thesis by (rule unchanged)
  qed
qed

lemma drainComp_deliveredOk: "deliveredOk c \<Longrightarrow> deliveredOk (fst (drainComp e r t i c s))"
  by (cases rule: drainComp_cases [of e r t i c s]) (simp_all add: deliveredOk_def)

lemma assignTarget_deliveredOk: "deliveredOk (fst (assignTarget r i c s))"
  by (auto simp: assignTarget_def deliveredOk_def orZero_def Let_def split_beta)

lemma refillComp_deliveredOk: "deliveredOk (fst (refillComp e r i c s))"
  by (auto simp: refillComp_def deliveredOk_def orZero_def Let_def)

lemma tickTruck_deliveredOk:
  assumes "\<forall>c\<in>set (t_compartments t). deliveredOk c"
  shows "\<forall>c\<in>set (t_compartments (fst (tickTruck e r t))). deliveredOk c"
proof (rule tickTruck_compartments_preserves [of deliveredOk])
  show "\<forall>c\<in>set (t_compartments t). deliveredOk c" by (rule assms)
  show "\<And>c. deliveredOk c \<Longrightarrow> deliveredOk (c\<lparr>c_isOffloading := False, c_targetDelivery := Some 0\<rparr>)"
    by (simp add: deliveredOk_def orZero_def)
  show "\<And>c. deliveredOk c \<Longrightarrow>
          deliveredOk (c\<lparr>c_currentLevel := max 0 (c_currentLevel c - stolenLiters r)\<rparr>)"
    by (simp add: deliveredOk_def)
qed (simp_all add: drainComp_deliveredOk assignTarget_deliveredOk refillComp_deliveredOk)

lemma step_deliveriesOk:
  assumes "deliveriesOk s"
  shows "deliveriesOk (step ev s)"
proof (cases ev)
  case (Tick e rs x)
  have "list_all (\<lambda>t. list_all deliveredOk (t_compartments t)) (trucks (tick e rs x s))"
  proof (rule tick_trucks_preserves)
    show "list_all (\<lambda>t. list_all deliveredOk (t_compartments t)) (trucks s)"
      using assms by (simp add: deliveriesOk_def)
    show "\<And>i t. list_all deliveredOk (t_compartments t) \<Longrightarrow>
            list_all deliveredOk (t_compartments (fst (tickTruck e (rs i) t)))"
      using tickTruck_deliveredOk by (simp add: list_all_iff)
  qed
  then show ?thesis using Tick by (simp add: deliveriesOk_def)
next
  case (AssignTrip x d)
  have "list_all (\<lambda>t. list_all deliveredOk (t_compartments t)) (assignTrip x d (trucks s))"
    by (rule assignTrip_preserves) (use assms in \<open>simp_all add: deliveriesOk_def\<close>)
  then show ?thesis using AssignTrip by (simp add: deliveriesOk_def)
next
  case (AcknowledgeAlert x)
  then show ?thesis using assms by (simp add: deliveriesOk_def)
qed

lemma run_deliveriesOk: "deliveriesOk s \<Longrightarrow> deliveriesOk (run evs s)"
  using step_deliveriesOk by (intro run_preserves [of evs deliveriesOk]) auto

lemma drainComp_increment:
  "orZero (c_deliveredLiters (fst (drainComp e r t i c st))) - orZero (c_deliveredLiters c) =
     (let m = min (min (real_of_int (jsFloor (r_drainRate r i * 40) + 20))
                       (orZero (c_targetDelivery c) - orZero (c_deliveredLiters c)))
                  (c_currentLevel c - c_capacity c * 0.05)
      in if c_isOffloading c \<and> 0 < c_currentLevel c \<and>
            orZero (c_deliveredLiters c) < orZero (c_targetDelivery c) \<and> 0 < m
         then m else 0)"
  by (simp add: drainComp_def Let_def split_beta)

text \<open>
  Claim C4. For every compartment with a delivery target, \<open>deliveredLiters \<le> targetDelivery\<close>
  holds after any sequence of ticks and commands when it held at the start; each drain
  step leaves the target alone and adds to \<open>deliveredLiters\<close> exactly
  \<open>min(drainRate, targetDelivery - deliveredLiters, currentLevel - 0.05 * capacity)\<close>, and
  only when the compartment is offloading, not empty, short of its target and that
  amount is positive.
\<close>

theorem delivered_within_target:
  assumes "deliveriesOk s"
  shows "deliveriesOk (run evs s) \<and>
    orZero (c_deliveredLiters (fst (drainComp e r t i c st))) - orZero (c_deliveredLiters c) =
     (let m = min (min (real_of_int (jsFloor (r_drainRate r i * 40) + 20))
                       (orZero (c_targetDelivery c) - orZero (c_deliveredLiters c)))
                  (c_currentLevel c - c_capacity c * 0.05)
      in if c_isOffloading c \<and> 0 < c_currentLevel c \<and>
            orZero (c_deliveredLiters c) < orZero (c_targetDelivery c) \<and> 0 < m
         then m else 0) \<and>
    c_targetDelivery (fst (drainComp e r t i c st)) = c_targetDelivery c"
  using run_deliveriesOk [OF assms] drainComp_increment
  by (simp add: drainComp_def Let_def split_beta)

subsection \<open>The reserve\<close>

lemma drainComp_reserve:
  "c_capacity (fst (drainComp e r t i c st)) = c_capacity c \<and>
   c_currentLevel (fst (drainComp e r t i c st)) \<le> c_currentLevel c \<and>
   c_currentLevel c - c_currentLevel (fst (drainComp e r t i c st))
     \<le> max 0 (c_currentLevel c - c_capacity c * 0.05) \<and>
   (aboveReserve c \<longrightarrow> aboveReserve (fst (drainComp e r t i c st)))"
  by (cases rule: drainComp_cases [of e r t i c st]) (simp_all add: aboveReserve_def)

text \<open>
  Claim C10. The drain step of a delivering tick never takes a compartment below its 5%
  reserve: when every compartment is at or above \<open>0.05 * capacity\<close> before the drain map,
  every compartment is afterwards, the capacity is unchanged, the level does not rise, and
  the amount drained is at most \<open>currentLevel - 0.05 * capacity\<close>.
\<close>

theorem drain_keeps_reserve:
  assumes "list_all aboveReserve cs"
  shows "list_all aboveReserve (fst (mapAccum (drainComp e r t) i cs st)) \<and>
         list_all2 (\<lambda>c c'. c_capacity c' = c_capacity c \<and>
                      c_currentLevel c' \<le> c_currentLevel c \<and>
                      c_currentLevel c - c_currentLevel c' \<le> c_currentLevel c - c_capacity c * 0.05)
           cs (fst (mapAccum (drainComp e r t) i cs st))"
proof
  have "\<forall>c\<in>set (fst (mapAccum (drainComp e r t) i cs st)). aboveReserve c"
  proof (rule mapAccum_preserves [of aboveReserve])
    show "\<forall>c\<in>set cs. aboveReserve c" using assms by (simp add: list_all_iff)
    show "\<And>i c s. aboveReserve c \<Longrightarrow> aboveReserve (fst (drainComp e r t i c s))"
      using drainComp_reserve by blast
  qed
  then show "list_all aboveReserve (fst (mapAccum (drainComp e r t) i cs st))"
    by (simp add: list_all_iff)
next
  show "list_all2 (\<lambda>c c'. c_capacity c' = c_capacity c \<and>
                      c_currentLevel c' \<le> c_currentLevel c \<and>
                      c_currentLevel c - c_currentLevel c' \<le> c_currentLevel c - c_capacity c * 0.05)
           cs (fst (mapAccum (drainComp e r t) i cs st))"
  proof (rule mapAccum_rel)
    fix j c s
    assume "c \<in> set cs"
    then have "aboveReserve c" using assms by (simp add: list_all_iff)
    then have "max 0 (c_currentLevel c - c_capacity c * 0.05) = c_currentLevel c - c_capacity c * 0.05"
      by (simp add: aboveReserve_def)
    then show "c_capacity (fst (drainComp e r t j c s)) = c_capacity c \<and>
        c_currentLevel (fst (drainComp e r t j c s)) \<le> c_currentLevel c \<and>
        c_currentLevel c - c_currentLevel (fst (drainComp e r t j c s))
          \<le> c_currentLevel c - c_capacity c * 0.05"
      using drainComp_reserve [of e r t j c s] by simp
  qed
qed

theorem drain_keeps_reserve_witness:
  "list_all aboveReserve
     (fst (mapAccum (drainComp env0 (constRnd (1 / 2)) (TK002 env0 midSeed)) 0
            (t_compartments (TK002 env0 midSeed)) (TK002 env0 midSeed, [], 0)))"
proof -
  have "list_all aboveReserve (t_compartments (TK002 env0 midSeed))"
    by (simp add: TK002_def seedTruck_def seedCompartment_def aboveReserve_def)
  from drain_keeps_reserve [OF this] show ?thesis by (rule conjunct1)
qed

lemma initialSim_deliveriesOk: "deliveriesOk (initialSim e sds)"
  by (simp add: deliveriesOk_def initialSim_def TK001_def TK002_def TK003_def TK004_def
      TK005_def seedTruck_def seedCompartment_def deliveredOk_def)

theorem delivered_within_target_witness:
  "deliveriesOk (run [Tick env0 (\<lambda>_. constRnd (1 / 2)) (1 / 2), AssignTrip ''TK001'' QURUM_SHELL,
                      Tick env0 (\<lambda>_. constRnd 0) 0]
                   (initialSim env0 (\<lambda>_. midSeed)))"
  using delivered_within_target [OF initialSim_deliveriesOk] by (rule conjunct1)

section \<open>The assigned branch\<close>











section \<open>The bounded sequences\<close>

lemma length_lastN [simp]: "length (lastN n xs) = min n (length xs)"
  by (simp add: lastN_def)

lemma tickTruck_trail_length:
  "length (t_trail (fst (tickTruck e r t))) = min 20 (length (t_trail t)) + 1"
  by (simp add: tickTruck_trail)

lemma tick_trucks_length [simp]: "length (trucks (tick e rs x s)) = length (trucks s)"
  by (simp add: tick_trucks)

lemma tick_trucks_nth:
  "i < length (trucks s) \<Longrightarrow>
   trucks (tick e rs x s) ! i = fst (tickTruck e (rs i) (trucks s ! i))"
  by (simp add: tick_trucks nth_enumerate_eq)

lemma step_trucks_length [simp]: "length (trucks (step ev s)) = length (trucks s)"
  by (cases ev) (simp_all add: assignTrip_def)

lemma step_trail_length:
  assumes "i < length (trucks s)"
  shows "length (t_trail (trucks (step ev s) ! i)) =
         (if isTick ev then min 20 (length (t_trail (trucks s ! i))) + 1
          else length (t_trail (trucks s ! i)))"
  using assms
  by (cases ev) (simp_all add: tick_trucks_nth tickTruck_trail_length assignTrip_nth)

lemma run_Nil [simp]: "run [] s = s"
  by (simp add: run_def)

lemma run_snoc [simp]: "run (evs @ [ev]) s = step ev (run evs s)"
  by (simp add: run_def)

lemma run_trucks_length [simp]: "length (trucks (run evs s)) = length (trucks s)"
  by (induction evs rule: rev_induct) simp_all

text \<open>
  The trail gains one entry per tick until it has 21, and keeps 21 from then on:
  \<^verbatim>\<open>[...truck.trail.slice(-20), entry]\<close> keeps twenty old entries and adds the new one.
\<close>

lemma run_trail_length:
  assumes "i < length (trucks s)" "length (t_trail (trucks s ! i)) \<le> 21"
  shows "length (t_trail (trucks (run evs s) ! i)) =
         min 21 (length (t_trail (trucks s ! i)) + tickCount evs)"
proof (induction evs rule: rev_induct)
  case Nil
  show ?case using assms(2) by (simp add: tickCount_def)
next
  case (snoc ev evs)
  have "i < length (trucks (run evs s))" using assms(1) by simp
  from step_trail_length [OF this, of ev] snoc.IH show ?case
    by (auto simp: tickCount_def)
qed

lemma applyUpdate_bounds:
  assumes "length (alerts s) \<le> 50" "length (fuelLossHistory s) \<le> 500"
  shows "length (alerts (applyUpdate u s)) \<le> 50 \<and>
         length (fuelLossHistory (applyUpdate u s)) \<le> 500"
  using assms by (cases u) simp_all

lemma foldl_applyUpdate_bounds:
  assumes "length (alerts s) \<le> 50" "length (fuelLossHistory s) \<le> 500"
  shows "length (alerts (foldl (\<lambda>st u. applyUpdate u st) s us)) \<le> 50 \<and>
         length (fuelLossHistory (foldl (\<lambda>st u. applyUpdate u st) s us)) \<le> 500"
  using assms
proof (induction us arbitrary: s)
  case Nil
  then show ?case by simp
next
  case (Cons u us)
  from applyUpdate_bounds [OF Cons.prems, of u] Cons.IH [of "applyUpdate u s"]
  show ?case by simp
qed

lemma step_bounds:
  assumes "length (alerts s) \<le> 50" "length (fuelLossHistory s) \<le> 500"
  shows "length (alerts (step ev s)) \<le> 50 \<and> length (fuelLossHistory (step ev s)) \<le> 500"
proof (cases ev)
  case (Tick e rs x)
  let ?results = "map (\<lambda>(i, truck). tickTruck e (rs i) truck) (enumerate 0 (trucks s))"
  have "length (alerts (s\<lparr>trucks := map fst ?results\<rparr>)) \<le> 50"
    "length (fuelLossHistory (s\<lparr>trucks := map fst ?results\<rparr>)) \<le> 500"
    using assms by simp_all
  from foldl_applyUpdate_bounds [OF this, of "concat (map snd ?results)"] Tick
  show ?thesis by (simp add: tick_def Let_def)
next
  case (AssignTrip x d)
  then show ?thesis using assms by simp
next
  case (AcknowledgeAlert x)
  then show ?thesis using assms by (simp add: acknowledgeAlert_def)
qed

text \<open>The two caps that hold: at most 50 alerts and at most 500 fuel-loss entries.\<close>

lemma run_bounds:
  assumes "length (alerts s) \<le> 50" "length (fuelLossHistory s) \<le> 500"
  shows "length (alerts (run evs s)) \<le> 50 \<and> length (fuelLossHistory (run evs s)) \<le> 500"
  by (induction evs rule: rev_induct) (use assms step_bounds in auto)

lemma initialSim_trail:
  "length (trucks (initialSim e sds)) = 5"
  "length (t_trail (trucks (initialSim e sds) ! 0)) = 1"
  by (simp_all add: initialSim_def TK001_def seedTruck_def)

text \<open>
  Claim C2 bounds the trail by 20 entries. From the initial state, where each trail has
  one entry, twenty ticks give the first truck a trail of 21 entries.
\<close>

theorem trail_reaches_21_entries:
  "length (t_trail (trucks (run (replicate 20 (Tick env0 (\<lambda>_. constRnd (1 / 2)) (1 / 2)))
                              (initialSim env0 (\<lambda>_. midSeed))) ! 0)) = 21"
proof -
  have "tickCount (replicate 20 (Tick env0 (\<lambda>_. constRnd (1 / 2)) (1 / 2))) = 20"
    by (simp add: tickCount_def)
  then show ?thesis
    using run_trail_length [of 0 "initialSim env0 (\<lambda>_. midSeed)"
             "replicate 20 (Tick env0 (\<lambda>_. constRnd (1 / 2)) (1 / 2))"]
    by (simp add: initialSim_trail)
qed

section \<open>Trip completion and the fuel-loss history\<close>

lemma lossEntries_append [simp]: "lossEntries (us @ vs) = lossEntries us @ lossEntries vs"
  by (induction us rule: lossEntries.induct) simp_all

lemma events_lossEntries [simp]:
  "lossEntries (snd (theftEvent e r t st)) = lossEntries (snd st)"
  "lossEntries (snd (valveEvent e r t st)) = lossEntries (snd st)"
  "lossEntries (snd (tiltEvent e r t st)) = lossEntries (snd st)"
  "lossEntries (snd (offlineEvent e r t st)) = lossEntries (snd st)"
  "lossEntries (snd (randomAlert e r t st)) = lossEntries (snd st)"
  "lossEntries (snd (trackConsumption e t st)) = lossEntries (snd st)"
  by (simp_all add: theftEvent_def valveEvent_def tiltEvent_def offlineEvent_def randomAlert_def
       trackConsumption_def Let_def split_beta split: option.splits)

lemma drainComp_lossEntries:
  "lossEntries (fst (snd (snd (drainComp e r t i c s)))) = lossEntries (fst (snd s))"
  by (simp add: drainComp_def Let_def split_beta)

lemma drainLoop_lossEntries [simp]:
  "lossEntries (fst (snd (snd (mapAccum (drainComp e r t) i cs s)))) = lossEntries (fst (snd s))"
  by (rule mapAccum_state_invariant [where g = "\<lambda>s. lossEntries (fst (snd s))"])
     (rule drainComp_lossEntries)

lemma deliver_lossEntries [simp]:
  "lossEntries (snd (deliver e r t st)) = lossEntries (snd st)"
  by (simp add: deliver_def Let_def split_beta)

lemma branches_lossEntries [simp]:
  "lossEntries (snd (startDelivery e r t st)) = lossEntries (snd st)"
  "lossEntries (snd (refill e r t st)) = lossEntries (snd st)"
  "lossEntries (snd (toUplifting t st)) = lossEntries (snd st)"
  "lossEntries (snd (drift r t st)) = lossEntries (snd st)"
  by (simp_all add: startDelivery_def refill_def toUplifting_def drift_def Let_def split_beta)

lemma tickTruck_lossEntries:
  "lossEntries (snd (tickTruck e r t)) = lossEntries (snd (stepStatus e r t (t, [])))"
  by (simp add: tickTruck_def Let_def split_beta)

text \<open>The entry written at a completion, from the assignment as it is at the start of the tick.\<close>

lemma stepStatus_arrival:
  assumes "reachesDestination r t"
  shows "t_status (fst (stepStatus e r t (t, []))) = Completed"
    "lossEntries (snd (stepStatus e r t (t, []))) =
       (case t_currentAssignment t of
          None \<Rightarrow> []
        | Some ca \<Rightarrow>
            [\<lparr>h_timestamp = now e, h_truckId = t_id t,
              h_assignedLiters = assignedLiters ca,
              h_deliveredLiters = foldl (\<lambda>sum cmp. sum + orZero (c_deliveredLiters cmp)) 0
                                    (t_compartments t),
              h_lossLiters = provisionalLossLiters ca,
              h_lossPercent = (if assignedLiters ca > 0
                               then (provisionalLossLiters ca / assignedLiters ca) * 100
                               else 0)\<rparr>])"
proof -
  from assms obtain dest where d: "t_status t = Delivering" "t_destination t = Some dest"
    by (auto simp: reachesDestination_def split: option.splits)
  from assms d have near:
    "sqrt ((lat (t_position t) + (lat dest - lat (t_position t)) * 0.01 +
                    (r_moveLat r - 0.5) * 0.001 - lat dest)\<^sup>2 +
                 (lng (t_position t) + (lng dest - lng (t_position t)) * 0.01 +
                    (r_moveLng r - 0.5) * 0.001 - lng dest)\<^sup>2) < 0.005"
    by (simp add: reachesDestination_def)
  have step: "stepStatus e r t (t, []) =
      arrive e t (t\<lparr>t_position :=
                  \<lparr>lat = lat (t_position t) + (lat dest - lat (t_position t)) * 0.01 +
                           (r_moveLat r - 0.5) * 0.001,
                   lng = lng (t_position t) + (lng dest - lng (t_position t)) * 0.01 +
                           (r_moveLng r - 0.5) * 0.001\<rparr>\<rparr>, [])"
    using d near by (simp add: stepStatus_def moveToDestination_def Let_def)
  show "t_status (fst (stepStatus e r t (t, []))) = Completed"
    by (simp add: step)
  show "lossEntries (snd (stepStatus e r t (t, []))) =
       (case t_currentAssignment t of
          None \<Rightarrow> []
        | Some ca \<Rightarrow>
            [\<lparr>h_timestamp = now e, h_truckId = t_id t,
              h_assignedLiters = assignedLiters ca,
              h_deliveredLiters = foldl (\<lambda>sum cmp. sum + orZero (c_deliveredLiters cmp)) 0
                                    (t_compartments t),
              h_lossLiters = provisionalLossLiters ca,
              h_lossPercent = (if assignedLiters ca > 0
                               then (provisionalLossLiters ca / assignedLiters ca) * 100
                               else 0)\<rparr>])"
    by (simp add: step arrive_def Let_def split: option.splits)
qed

lemma stepStatus_no_arrival:
  assumes "\<not> reachesDestination r t"
  shows "lossEntries (snd (stepStatus e r t (t, []))) = []"
  using assms
  by (auto simp: reachesDestination_def stepStatus_def moveToDestination_def Let_def
        split: option.splits if_splits)


lemma tickTruck_completion:
  assumes "reachesDestination r t"
  shows "t_status (fst (tickTruck e r t)) = Completed"
    "lossEntries (snd (tickTruck e r t)) =
       (case t_currentAssignment t of
          None \<Rightarrow> []
        | Some ca \<Rightarrow>
            [\<lparr>h_timestamp = now e, h_truckId = t_id t,
              h_assignedLiters = assignedLiters ca,
              h_deliveredLiters = foldl (\<lambda>sum cmp. sum + orZero (c_deliveredLiters cmp)) 0
                                    (t_compartments t),
              h_lossLiters = provisionalLossLiters ca,
              h_lossPercent = (if assignedLiters ca > 0
                               then (provisionalLossLiters ca / assignedLiters ca) * 100
                               else 0)\<rparr>])"
  using stepStatus_arrival [OF assms] by (simp_all add: tickTruck_status tickTruck_lossEntries)

lemma tickTruck_no_completion:
  "\<not> reachesDestination r t \<Longrightarrow> lossEntries (snd (tickTruck e r t)) = []"
  by (simp add: tickTruck_lossEntries stepStatus_no_arrival)

text \<open>The history after a tick: the queued entries, appended one by one under the cap.\<close>

lemma foldl_applyUpdate_history:
  "fuelLossHistory (foldl (\<lambda>st u. applyUpdate u st) s us) =
     foldl (\<lambda>h x. lastN 499 h @ [x]) (fuelLossHistory s) (lossEntries us)"
proof (induction us arbitrary: s)
  case Nil
  show ?case by simp
next
  case (Cons u us)
  show ?case by (cases u) (simp_all add: Cons.IH)
qed

lemma tick_fuelLossHistory:
  "fuelLossHistory (tick e rs x s) =
     foldl (\<lambda>h y. lastN 499 h @ [y]) (fuelLossHistory s)
       (lossEntries (concat (map (\<lambda>(i, t). snd (tickTruck e (rs i) t)) (enumerate 0 (trucks s)))))"
  by (simp add: tick_def Let_def foldl_applyUpdate_history case_prod_unfold comp_def)

lemma lossEntries_concat: "lossEntries (concat xss) = concat (map lossEntries xss)"
  by (induction xss) simp_all

lemma tickTruck_lossEntries_cases:
  "lossEntries (snd (tickTruck e r t)) =
     (if reachesDestination r t then
        (case t_currentAssignment t of
           None \<Rightarrow> []
         | Some ca \<Rightarrow>
             [\<lparr>h_timestamp = now e, h_truckId = t_id t,
               h_assignedLiters = assignedLiters ca,
               h_deliveredLiters = foldl (\<lambda>sum cmp. sum + orZero (c_deliveredLiters cmp)) 0
                                     (t_compartments t),
               h_lossLiters = provisionalLossLiters ca,
               h_lossPercent = (if assignedLiters ca > 0
                                then (provisionalLossLiters ca / assignedLiters ca) * 100
                                else 0)\<rparr>])
      else [])"
  using tickTruck_completion(2) [of r t e] tickTruck_no_completion [of r t e] by simp

lemma tick_completionEntries:
  "lossEntries (concat (map (\<lambda>(i, t). snd (tickTruck e (rs i) t)) (enumerate 0 (trucks s)))) =
     completionEntries e rs (trucks s)"
  by (simp add: lossEntries_concat completionEntries_def comp_def case_prod_unfold
        tickTruck_lossEntries_cases)

lemma completionEntries_length:
  "length (completionEntries e rs ts) = length (completingTrucks rs ts)"
proof -
  have "length (concat (map (\<lambda>(i, t).
        if reachesDestination (rs i) t then
          (case t_currentAssignment t of
             None \<Rightarrow> []
           | Some ca \<Rightarrow>
               [\<lparr>h_timestamp = now e, h_truckId = t_id t,
                 h_assignedLiters = assignedLiters ca,
                 h_deliveredLiters = foldl (\<lambda>sum cmp. sum + orZero (c_deliveredLiters cmp)) 0
                                       (t_compartments t),
                 h_lossLiters = provisionalLossLiters ca,
                 h_lossPercent = (if assignedLiters ca > 0
                                  then (provisionalLossLiters ca / assignedLiters ca) * 100
                                  else 0)\<rparr>])
        else []) ps)) =
      length (filter (\<lambda>(i, t). reachesDestination (rs i) t \<and> t_currentAssignment t \<noteq> None) ps)"
    for ps :: "(nat \<times> truck) list"
    by (induction ps) (auto split: option.splits if_splits)
  then show ?thesis by (simp add: completionEntries_def completingTrucks_def)
qed

lemma completionEntries_lossPercent:
  "list_all (\<lambda>y. h_lossPercent y =
               (if 0 < h_assignedLiters y then (h_lossLiters y / h_assignedLiters y) * 100 else 0))
     (completionEntries e rs ts)"
proof -
  have "list_all (\<lambda>y. h_lossPercent y =
               (if 0 < h_assignedLiters y then (h_lossLiters y / h_assignedLiters y) * 100 else 0))
     (concat (map (\<lambda>(i, t).
        if reachesDestination (rs i) t then
          (case t_currentAssignment t of
             None \<Rightarrow> []
           | Some ca \<Rightarrow>
               [\<lparr>h_timestamp = now e, h_truckId = t_id t,
                 h_assignedLiters = assignedLiters ca,
                 h_deliveredLiters = foldl (\<lambda>sum cmp. sum + orZero (c_deliveredLiters cmp)) 0
                                       (t_compartments t),
                 h_lossLiters = provisionalLossLiters ca,
                 h_lossPercent = (if assignedLiters ca > 0
                                  then (provisionalLossLiters ca / assignedLiters ca) * 100
                                  else 0)\<rparr>])
        else []) ps))"
    for ps :: "(nat \<times> truck) list"
    by (induction ps) (simp_all add: case_prod_unfold split: option.splits)
  then show ?thesis by (simp add: completionEntries_def)
qed

lemma foldl_append_under_cap:
  "length h + length ys \<le> 500 \<Longrightarrow> foldl (\<lambda>h y. lastN 499 h @ [y]) h ys = h @ ys"
proof (induction ys arbitrary: h)
  case Nil
  show ?case by simp
next
  case (Cons y ys)
  from Cons.prems have "length h \<le> 499" by simp
  then have l: "lastN 499 h = h" by (simp add: lastN_def)
  from Cons.prems have "length (h @ [y]) + length ys \<le> 500" by simp
  from Cons.IH [OF this] l show ?case by simp
qed

text \<open>
  Claim C5, amended. A tick turns the fuel-loss history into the old history with one
  entry appended, by the updater \<^verbatim>\<open>prev => [...prev.slice(-499), entry]\<close>, for each truck
  that completes its trip in this tick and has a \<open>currentAssignment\<close>, and with nothing
  appended for a truck that completes without one or does not complete; while the cap of
  500 is not reached the new history is the old one followed by these entries. In every
  such entry \<open>lossPercent = (lossLiters / assignedLiters) * 100\<close> when
  \<open>assignedLiters > 0\<close> (and 0 otherwise).
\<close>

theorem completion_appends_loss_entry:
  "fuelLossHistory (tick e rs x s) =
     foldl (\<lambda>h y. lastN 499 h @ [y]) (fuelLossHistory s) (completionEntries e rs (trucks s)) \<and>
   (length (fuelLossHistory s) + length (completingTrucks rs (trucks s)) \<le> 500 \<longrightarrow>
      fuelLossHistory (tick e rs x s) = fuelLossHistory s @ completionEntries e rs (trucks s)) \<and>
   length (completionEntries e rs (trucks s)) = length (completingTrucks rs (trucks s)) \<and>
   list_all (\<lambda>y. h_lossPercent y =
               (if 0 < h_assignedLiters y then (h_lossLiters y / h_assignedLiters y) * 100 else 0))
     (completionEntries e rs (trucks s))"
proof -
  have h: "fuelLossHistory (tick e rs x s) =
     foldl (\<lambda>h y. lastN 499 h @ [y]) (fuelLossHistory s) (completionEntries e rs (trucks s))"
    by (simp only: tick_fuelLossHistory tick_completionEntries)
  have "length (fuelLossHistory s) + length (completingTrucks rs (trucks s)) \<le> 500 \<Longrightarrow>
      fuelLossHistory (tick e rs x s) = fuelLossHistory s @ completionEntries e rs (trucks s)"
    using foldl_append_under_cap [of "fuelLossHistory s" "completionEntries e rs (trucks s)"]
    by (simp add: h completionEntries_length)
  then show ?thesis
    using h completionEntries_length completionEntries_lossPercent by blast
qed


lemma sqrt_less_iff_square:
  assumes "0 < c"
  shows "sqrt x < c \<longleftrightarrow> x < c\<^sup>2"
proof -
  have "sqrt x < c \<longleftrightarrow> sqrt x < sqrt (c\<^sup>2)" using assms by simp
  also have "\<dots> \<longleftrightarrow> x < c\<^sup>2" by (rule real_sqrt_less_iff)
  finally show ?thesis .
qed

lemma TK002_fields:
  "t_status (TK002 e midSeed) = Delivering"
  "t_destination (TK002 e midSeed) = Some AL_KHUWAIR_BP"
  "t_position (TK002 e midSeed) = \<lparr>lat = 23.5850, lng = 58.3950\<rparr>"
  "t_currentAssignment (TK002 e midSeed) = None"
  by (simp_all add: TK002_def seedTruck_def seedAround_def midSeed_def)

lemma TK002_reaches: "reachesDestination (constRnd (9 / 10)) (TK002 e midSeed)"
proof -
  have "sqrt ((23.5850 + (23.5850 - 23.5850) * 0.01 + (9 / 10 - 0.5) * 0.001 - 23.5850)\<^sup>2 +
              (58.3950 + (58.4000 - 58.3950) * 0.01 + (9 / 10 - 0.5) * 0.001 - 58.4000)\<^sup>2)
          < (0.005 :: real)"
    by (rule real_less_lsqrt) (simp_all add: power2_eq_square)
  then show ?thesis
    by (simp add: reachesDestination_def TK002_fields AL_KHUWAIR_BP_def constRnd_def)
qed

lemma reachesDestination_assignment [simp]:
  "reachesDestination r (t\<lparr>t_currentAssignment := x\<rparr>) = reachesDestination r t"
  by (simp add: reachesDestination_def cong: option.case_cong)

text \<open>
  Claim C5 as stated promises an entry for every completion. The seed truck TK002 starts
  \<open>delivering\<close> 0.005 degrees from its destination and without a \<open>currentAssignment\<close>:
  with every draw equal to 0.9 its first tick completes the trip, and the fuel-loss
  history of the fleet is as empty after the tick as before.
\<close>

theorem completion_without_assignment_counterexample:
  "t_status (trucks (initialSim env0 (\<lambda>_. midSeed)) ! 1) = Delivering \<and>
   reachesDestination (constRnd (9 / 10)) (trucks (initialSim env0 (\<lambda>_. midSeed)) ! 1) \<and>
   t_status (trucks (tick env0 (\<lambda>_. constRnd (9 / 10)) 0 (initialSim env0 (\<lambda>_. midSeed))) ! 1) =
     Completed \<and>
   fuelLossHistory (initialSim env0 (\<lambda>_. midSeed)) = [] \<and>
   fuelLossHistory (tick env0 (\<lambda>_. constRnd (9 / 10)) 0 (initialSim env0 (\<lambda>_. midSeed))) = []"
proof -
  let ?s = "initialSim env0 (\<lambda>_. midSeed)"
  let ?r = "constRnd (9 / 10)"
  have trucks: "trucks ?s = [TK001 env0 midSeed, TK002 env0 midSeed, TK003 env0 midSeed,
                             TK004 env0 midSeed, TK005 env0 midSeed]"
    by (simp add: initialSim_def)
  have other: "\<not> reachesDestination ?r (TK001 env0 midSeed)"
    "\<not> reachesDestination ?r (TK003 env0 midSeed)"
    "\<not> reachesDestination ?r (TK004 env0 midSeed)"
    "\<not> reachesDestination ?r (TK005 env0 midSeed)"
    by (simp_all add: reachesDestination_def TK001_def TK003_def TK004_def TK005_def seedTruck_def)
  have two: "lossEntries (snd (tickTruck env0 ?r (TK002 env0 midSeed))) = []"
    using tickTruck_completion(2) [OF TK002_reaches, of env0 env0] by (simp add: TK002_fields)
  have hist: "fuelLossHistory (tick env0 (\<lambda>_. ?r) 0 ?s) = []"
    by (simp add: tick_fuelLossHistory trucks two tickTruck_no_completion [OF other(1)]
        tickTruck_no_completion [OF other(2)] tickTruck_no_completion [OF other(3)]
        tickTruck_no_completion [OF other(4)] initialSim_def)
  have st: "t_status (trucks (tick env0 (\<lambda>_. ?r) 0 ?s) ! 1) = Completed"
    using tickTruck_completion(1) [OF TK002_reaches, of env0 env0]
    by (simp add: tick_trucks_nth trucks)
  show ?thesis using hist st TK002_reaches [of env0]
    by (simp add: trucks TK002_fields) (simp add: initialSim_def)
qed

lemma assignedTK002_fields:
  "t_currentAssignment assignedTK002 = Some
      \<lparr>assignedLiters = 2500, startedAt = 0, perCompTargets = Map.empty,
       provisionalLossLiters = 25\<rparr>"
  "reachesDestination (constRnd (9 / 10)) assignedTK002"
  using TK002_reaches [of env0] by (simp_all add: assignedTK002_def)

lemma assignedFleet_completing:
  "completingTrucks (\<lambda>_. constRnd (9 / 10)) (trucks assignedFleet) = [(1, assignedTK002)]"
proof -
  have other: "\<not> reachesDestination (constRnd (9 / 10)) (TK001 env0 midSeed)"
    "\<not> reachesDestination (constRnd (9 / 10)) (TK003 env0 midSeed)"
    "\<not> reachesDestination (constRnd (9 / 10)) (TK004 env0 midSeed)"
    "\<not> reachesDestination (constRnd (9 / 10)) (TK005 env0 midSeed)"
    by (simp_all add: reachesDestination_def TK001_def TK003_def TK004_def TK005_def seedTruck_def)
  show ?thesis
    by (simp add: completingTrucks_def assignedFleet_def other assignedTK002_fields)
qed

theorem completion_appends_loss_entry_witness:
  "fuelLossHistory assignedFleet = [] \<and>
   length (fuelLossHistory (tick env0 (\<lambda>_. constRnd (9 / 10)) 0 assignedFleet)) = 1 \<and>
   map h_truckId (fuelLossHistory (tick env0 (\<lambda>_. constRnd (9 / 10)) 0 assignedFleet)) = [''TK002''] \<and>
   map h_lossPercent (fuelLossHistory (tick env0 (\<lambda>_. constRnd (9 / 10)) 0 assignedFleet)) = [1]"
proof -
  let ?rs = "\<lambda>_. constRnd (9 / 10)"
  have other: "\<not> reachesDestination (constRnd (9 / 10)) (TK001 env0 midSeed)"
    "\<not> reachesDestination (constRnd (9 / 10)) (TK003 env0 midSeed)"
    "\<not> reachesDestination (constRnd (9 / 10)) (TK004 env0 midSeed)"
    "\<not> reachesDestination (constRnd (9 / 10)) (TK005 env0 midSeed)"
    by (simp_all add: reachesDestination_def TK001_def TK003_def TK004_def TK005_def seedTruck_def)
  have empty: "fuelLossHistory assignedFleet = []" by (simp add: assignedFleet_def)
  have cap: "length (fuelLossHistory assignedFleet) + length (completingTrucks ?rs (trucks assignedFleet))
               \<le> 500"
    by (simp add: assignedFleet_completing empty)
  have entries: "map h_truckId (completionEntries env0 ?rs (trucks assignedFleet)) = [''TK002'']"
    "map h_lossPercent (completionEntries env0 ?rs (trucks assignedFleet)) = [1]"
    by (simp_all add: completionEntries_def assignedFleet_def other assignedTK002_fields)
       (simp_all add: assignedTK002_def TK002_def seedTruck_def)
  from completion_appends_loss_entry [of env0 ?rs 0 assignedFleet] cap
  have "fuelLossHistory (tick env0 ?rs 0 assignedFleet) =
          fuelLossHistory assignedFleet @ completionEntries env0 ?rs (trucks assignedFleet)"
    by blast
  then show ?thesis using entries empty
    by (simp add: arg_cong [OF entries(1), of length, simplified])
qed

section \<open>Uplifting ends\<close>

lemma refill_status:
  "t_status (fst (refill e r t st)) =
     (if list_all (\<lambda>c. c_capacity c * 0.95 \<le> c_currentLevel c)
           (fst (mapAccum (refillComp e r) 0 (t_compartments t) (t_logs (fst st))))
      then Idle else t_status (fst st))"
  "list_all (\<lambda>c. c_capacity c * 0.95 \<le> c_currentLevel c)
           (fst (mapAccum (refillComp e r) 0 (t_compartments t) (t_logs (fst st))))
   \<Longrightarrow> t_destination (fst (refill e r t st)) = None \<and> t_startPoint (fst (refill e r t st)) = None"
  by (simp_all add: refill_def Let_def split_beta)

lemma tickTruck_uplifting:
  assumes "t_status t = Uplifting"
  shows "t_compartments (fst (tickTruck e r t)) =
           fst (mapAccum (refillComp e r) 0 (t_compartments t) (t_logs t))"
    "t_status (fst (tickTruck e r t)) =
       (if list_all (\<lambda>c. c_capacity c * 0.95 \<le> c_currentLevel c)
             (t_compartments (fst (tickTruck e r t)))
        then Idle else Uplifting)"
    "list_all (\<lambda>c. c_capacity c * 0.95 \<le> c_currentLevel c)
             (t_compartments (fst (tickTruck e r t)))
     \<Longrightarrow> t_destination (fst (tickTruck e r t)) = None \<and>
         t_startPoint (fst (tickTruck e r t)) = None"
proof -
  show c: "t_compartments (fst (tickTruck e r t)) =
           fst (mapAccum (refillComp e r) 0 (t_compartments t) (t_logs t))"
    using assms by (simp add: tickTruck_def Let_def split_beta stepStatus_def)
  show "t_status (fst (tickTruck e r t)) =
       (if list_all (\<lambda>c. c_capacity c * 0.95 \<le> c_currentLevel c)
             (t_compartments (fst (tickTruck e r t)))
        then Idle else Uplifting)"
    using assms by (simp add: c tickTruck_status stepStatus_def refill_status)
  show "list_all (\<lambda>c. c_capacity c * 0.95 \<le> c_currentLevel c)
             (t_compartments (fst (tickTruck e r t)))
     \<Longrightarrow> t_destination (fst (tickTruck e r t)) = None \<and>
         t_startPoint (fst (tickTruck e r t)) = None"
    using assms by (simp add: c tickTruck_destination stepStatus_def refill_status)
qed

text \<open>One refill step: the capacity stays, the level gains 40 L unless it passes 95%.\<close>

lemma refillComp_capacity [simp]: "c_capacity (fst (refillComp e r i c s)) = c_capacity c"
  by (simp add: refillComp_def Let_def)

lemma refillComp_progress:
  assumes "unit01 (r_fill r i)" "0 \<le> c_capacity c"
  shows "c_capacity (fst (refillComp e r i c s)) = c_capacity c \<and>
         min (c_capacity c * 0.95) (c_currentLevel c + 40)
           \<le> c_currentLevel (fst (refillComp e r i c s))"
proof -
  have "0 \<le> jsFloor (r_fill r i * real_of_int 40)"
    using assms(1) by (rule floor_draw_bounds) simp
  then have "0 \<le> real_of_int (jsFloor (r_fill r i * 40))" by simp
  then show ?thesis using assms(2)
    by (auto simp: refillComp_def Let_def)
qed

lemma upliftNeed_le_bound:
  "c \<in> set cs \<Longrightarrow> upliftNeed c \<le> int (upliftBound cs)"
proof -
  have "c \<in> set cs \<Longrightarrow> upliftNeed c \<le> foldr (\<lambda>c m. max (upliftNeed c) m) cs 0"
    by (induction cs) auto
  then show "c \<in> set cs \<Longrightarrow> upliftNeed c \<le> int (upliftBound cs)"
    by (simp add: upliftBound_def)
qed

lemma upliftNeed_le_iff:
  "upliftNeed c \<le> int n \<longleftrightarrow> c_capacity c * 0.95 - c_currentLevel c \<le> 40 * real n"
  by (simp add: upliftNeed_def ceiling_le_iff field_simps)

lemma truckRun_Cons [simp]:
  "truckRun ((e, r) # steps) t = truckRun steps (fst (tickTruck e r t))"
  by (simp add: truckRun_def)

lemma truckRun_Nil [simp]: "truckRun [] t = t"
  by (simp add: truckRun_def)

lemma uplifting_within:
  assumes "t_status t = Uplifting"
    and "\<forall>c\<in>set (t_compartments t).
           0 \<le> c_capacity c \<and> c_capacity c * 0.95 - c_currentLevel c \<le> 40 * real n"
    and "\<forall>(e, r)\<in>set steps. validRnd r"
    and "1 \<le> n" "n \<le> length steps"
  shows "\<exists>k. 1 \<le> k \<and> k \<le> n \<and> t_status (truckRun (take k steps) t) = Idle \<and>
             t_destination (truckRun (take k steps) t) = None \<and>
             t_startPoint (truckRun (take k steps) t) = None"
  using assms
proof (induction n arbitrary: t steps)
  case 0
  then show ?case by simp
next
  case (Suc m)
  from Suc.prems(5) obtain e r rest where steps: "steps = (e, r) # rest"
    by (cases steps) auto
  have v: "validRnd r" and vrest: "\<forall>(e, r)\<in>set rest. validRnd r"
    using Suc.prems(3) by (auto simp: steps)
  let ?t1 = "fst (tickTruck e r t)"
  let ?full = "list_all (\<lambda>c. c_capacity c * 0.95 \<le> c_currentLevel c) (t_compartments ?t1)"
  have rel: "list_all2 (\<lambda>c c1. c_capacity c1 = c_capacity c \<and>
                 (0 \<le> c_capacity c \<longrightarrow>
                  min (c_capacity c * 0.95) (c_currentLevel c + 40) \<le> c_currentLevel c1))
               (t_compartments t) (t_compartments ?t1)"
    unfolding tickTruck_uplifting(1) [OF Suc.prems(1)]
  proof (rule mapAccum_rel)
    fix i c s
    have "unit01 (r_fill r i)" using v by (simp add: validRnd_def)
    then show "c_capacity (fst (refillComp e r i c s)) = c_capacity c \<and>
          (0 \<le> c_capacity c \<longrightarrow>
           min (c_capacity c * 0.95) (c_currentLevel c + 40)
             \<le> c_currentLevel (fst (refillComp e r i c s)))"
      using refillComp_progress [of r i c e s] by simp
  qed
  have next_inv: "\<forall>c1\<in>set (t_compartments ?t1). 0 \<le> c_capacity c1 \<and>
        (c_capacity c1 * 0.95 \<le> c_currentLevel c1 \<or>
         c_capacity c1 * 0.95 - c_currentLevel c1 \<le> 40 * real m)"
    using rel Suc.prems(2)
  proof (rule list_all2_preserves)
    fix c c1
    assume p: "0 \<le> c_capacity c \<and> c_capacity c * 0.95 - c_currentLevel c \<le> 40 * real (Suc m)"
      and q: "c_capacity c1 = c_capacity c \<and>
                 (0 \<le> c_capacity c \<longrightarrow>
                  min (c_capacity c * 0.95) (c_currentLevel c + 40) \<le> c_currentLevel c1)"
    from p q have "min (c_capacity c * 0.95) (c_currentLevel c + 40) \<le> c_currentLevel c1"
      by blast
    then have "c_capacity c * 0.95 \<le> c_currentLevel c1 \<or> c_currentLevel c + 40 \<le> c_currentLevel c1"
      by (auto simp: min_def split: if_splits)
    with p q show "0 \<le> c_capacity c1 \<and>
        (c_capacity c1 * 0.95 \<le> c_currentLevel c1 \<or>
         c_capacity c1 * 0.95 - c_currentLevel c1 \<le> 40 * real m)"
      by auto
  qed
  show ?case
  proof (cases ?full)
    case True
    then have "t_status ?t1 = Idle" "t_destination ?t1 = None" "t_startPoint ?t1 = None"
      using tickTruck_uplifting(2,3) [OF Suc.prems(1), of e r] by simp_all
    then have "t_status (truckRun (take 1 steps) t) = Idle \<and>
             t_destination (truckRun (take 1 steps) t) = None \<and>
             t_startPoint (truckRun (take 1 steps) t) = None"
      by (simp add: steps)
    then show ?thesis by (intro exI [of _ 1]) simp
  next
    case False
    then have up: "t_status ?t1 = Uplifting"
      using tickTruck_uplifting(2) [OF Suc.prems(1), of e r] by simp
    from False obtain c1 where c1: "c1 \<in> set (t_compartments ?t1)"
      "\<not> c_capacity c1 * 0.95 \<le> c_currentLevel c1"
      by (auto simp: list_all_iff)
    with next_inv have "c_capacity c1 * 0.95 - c_currentLevel c1 \<le> 40 * real m" by blast
    with c1(2) have "0 < real m" by linarith
    then have m1: "1 \<le> m" by simp
    have inv1: "\<forall>c\<in>set (t_compartments ?t1).
           0 \<le> c_capacity c \<and> c_capacity c * 0.95 - c_currentLevel c \<le> 40 * real m"
    proof
      fix c assume "c \<in> set (t_compartments ?t1)"
      with next_inv have "0 \<le> c_capacity c \<and>
        (c_capacity c * 0.95 \<le> c_currentLevel c \<or>
         c_capacity c * 0.95 - c_currentLevel c \<le> 40 * real m)" by blast
      moreover have "0 \<le> 40 * real m" by simp
      ultimately show "0 \<le> c_capacity c \<and> c_capacity c * 0.95 - c_currentLevel c \<le> 40 * real m"
        by linarith
    qed
    have len: "m \<le> length rest" using Suc.prems(5) by (simp add: steps)
    from Suc.IH [OF up inv1 vrest m1 len] obtain k where
      k: "1 \<le> k" "k \<le> m" "t_status (truckRun (take k rest) ?t1) = Idle"
         "t_destination (truckRun (take k rest) ?t1) = None"
         "t_startPoint (truckRun (take k rest) ?t1) = None"
      by blast
    then have "1 \<le> Suc k \<and> Suc k \<le> Suc m \<and>
             t_status (truckRun (take (Suc k) steps) t) = Idle \<and>
             t_destination (truckRun (take (Suc k) steps) t) = None \<and>
             t_startPoint (truckRun (take (Suc k) steps) t) = None"
      by (simp add: steps)
    then show ?thesis by blast
  qed
qed

text \<open>
  Claim C6, amended. A truck in the \<open>uplifting\<close> state whose capacities are not negative
  reaches \<open>idle\<close>, for every sequence of refill draws in \<open>[0, 1)\<close> (40 to 79 L per tick),
  after at least one and at most \<open>max(1, N)\<close> ticks, where \<open>N\<close> is the largest
  \<open>\<lceil>(capacity * 0.95 - currentLevel) / 40\<rceil>\<close> over its compartments; at that tick its
  destination and start point are cleared.
\<close>

theorem uplifting_reaches_idle:
  assumes "t_status t = Uplifting"
    and "list_all (\<lambda>c. 0 \<le> c_capacity c) (t_compartments t)"
    and "list_all (\<lambda>(e, r). validRnd r) steps"
    and "max 1 (upliftBound (t_compartments t)) \<le> length steps"
  shows "\<exists>k. 1 \<le> k \<and> k \<le> max 1 (upliftBound (t_compartments t)) \<and>
             t_status (truckRun (take k steps) t) = Idle \<and>
             t_destination (truckRun (take k steps) t) = None \<and>
             t_startPoint (truckRun (take k steps) t) = None"
proof (rule uplifting_within [OF assms(1)])
  let ?n = "max 1 (upliftBound (t_compartments t))"
  show "\<forall>c\<in>set (t_compartments t).
           0 \<le> c_capacity c \<and> c_capacity c * 0.95 - c_currentLevel c \<le> 40 * real ?n"
  proof
    fix c assume c: "c \<in> set (t_compartments t)"
    have "upliftNeed c \<le> int (upliftBound (t_compartments t))"
      using c by (rule upliftNeed_le_bound)
    then have "upliftNeed c \<le> int ?n" by simp
    then have "c_capacity c * 0.95 - c_currentLevel c \<le> 40 * real ?n"
      by (simp only: upliftNeed_le_iff)
    moreover have "0 \<le> c_capacity c" using assms(2) c by (simp add: list_all_iff)
    ultimately show "0 \<le> c_capacity c \<and> c_capacity c * 0.95 - c_currentLevel c \<le> 40 * real ?n"
      by simp
  qed
  show "\<forall>(e, r)\<in>set steps. validRnd r" using assms(3) by (simp add: list_all_iff)
  show "1 \<le> ?n" by simp
  show "?n \<le> length steps" by (rule assms(4))
qed


lemma nearlyFull_fields:
  "t_status nearlyFullTK005 = Uplifting"
  "t_compartments nearlyFullTK005 =
     [seedCompartment ''C1'' 5000 4800 ''Diesel'' False None,
      seedCompartment ''C2'' 5000 4800 ''Petrol'' False None,
      seedCompartment ''C3'' 5000 4800 ''Diesel'' False None,
      seedCompartment ''C4'' 5000 4800 ''Petrol'' False None]"
  by (simp_all add: nearlyFullTK005_def TK005_def seedTruck_def)

text \<open>
  Claim C6 as stated gives the bound \<open>N\<close> itself. An uplifting truck whose compartments
  are all at 4800 of 5000 L has \<open>N = 0\<close>, yet it is uplifting, not idle, until its next
  tick: the transition to \<open>idle\<close> is made by a tick of the \<open>uplifting\<close> branch.
\<close>

theorem uplifting_bound_counterexample:
  "t_status nearlyFullTK005 = Uplifting \<and>
   upliftBound (t_compartments nearlyFullTK005) = 0 \<and>
   t_status (truckRun [] nearlyFullTK005) \<noteq> Idle \<and>
   t_status (truckRun [(env0, constRnd (1 / 2))] nearlyFullTK005) = Idle"
proof -
  have b: "upliftBound (t_compartments nearlyFullTK005) = 0"
    by (simp add: nearlyFull_fields upliftBound_def upliftNeed_def seedCompartment_def)
  have "list_all (\<lambda>c. c_capacity c * 0.95 \<le> c_currentLevel c)
          (t_compartments (fst (tickTruck env0 (constRnd (1 / 2)) nearlyFullTK005)))"
    by (simp add: tickTruck_uplifting(1) [OF nearlyFull_fields(1)] nearlyFull_fields(2)
          refillComp_def seedCompartment_def constRnd_def jsFloor_def Let_def)
  then have "t_status (fst (tickTruck env0 (constRnd (1 / 2)) nearlyFullTK005)) = Idle"
    using tickTruck_uplifting(2) [OF nearlyFull_fields(1), of env0 "constRnd (1 / 2)"] by simp
  then show ?thesis using b by (simp add: nearlyFull_fields(1))
qed

lemma TK005_fields:
  "t_status (TK005 e sd) = Uplifting"
  "t_compartments (TK005 e sd) =
     [seedCompartment ''C1'' 5000 3200 ''Diesel'' False None,
      seedCompartment ''C2'' 5000 2800 ''Petrol'' False None,
      seedCompartment ''C3'' 5000 3600 ''Diesel'' False None,
      seedCompartment ''C4'' 5000 3100 ''Petrol'' False None]"
  by (simp_all add: TK005_def seedTruck_def)

lemma TK005_bound: "upliftBound (t_compartments (TK005 e sd)) = 49"
  by (simp add: TK005_fields upliftBound_def upliftNeed_def seedCompartment_def)

theorem uplifting_reaches_idle_witness:
  "\<exists>k. 1 \<le> k \<and> k \<le> 49 \<and>
     t_status (truckRun (take k (replicate 49 (env0, constRnd (1 / 2)))) (TK005 env0 midSeed)) = Idle \<and>
     t_destination (truckRun (take k (replicate 49 (env0, constRnd (1 / 2)))) (TK005 env0 midSeed)) = None \<and>
     t_startPoint (truckRun (take k (replicate 49 (env0, constRnd (1 / 2)))) (TK005 env0 midSeed)) = None"
proof -
  have caps: "list_all (\<lambda>c. 0 \<le> c_capacity c) (t_compartments (TK005 env0 midSeed))"
    by (simp add: TK005_fields seedCompartment_def)
  have draws: "list_all (\<lambda>(e, r). validRnd r) (replicate 49 (env0, constRnd (1 / 2)))"
    by (simp add: list_all_iff validRnd_const)
  have len: "max 1 (upliftBound (t_compartments (TK005 env0 midSeed)))
               \<le> length (replicate 49 (env0, constRnd (1 / 2)))"
    by (simp add: TK005_bound)
  from uplifting_reaches_idle [OF TK005_fields(1) caps draws len] show ?thesis
    by (simp add: TK005_bound)
qed

end
